theory Spec2Isabelle
  imports Main
begin

section \<open>Strings and paths\<close>

text \<open>
  Python strings are modelled as \<^typ>\<open>string\<close>; the text operations the program uses
  (\<open>str.lower\<close>, \<open>str.strip\<close>, \<open>str.upper\<close>, \<open>str(int)\<close>) are modelled on the ASCII range,
  every other character is left as it is.
\<close>

definition lower_char :: "char \<Rightarrow> char" where
  "lower_char c =
     (let n = (of_char c :: nat) in if 65 \<le> n \<and> n \<le> 90 then char_of (n + 32) else c)"

definition upper_char :: "char \<Rightarrow> char" where
  "upper_char c =
     (let n = (of_char c :: nat) in if 97 \<le> n \<and> n \<le> 122 then char_of (n - 32) else c)"

definition lower :: "string \<Rightarrow> string" where
  "lower s = map lower_char s"

definition upper :: "string \<Rightarrow> string" where
  "upper s = map upper_char s"

definition is_space :: "char \<Rightarrow> bool" where
  "is_space c = (let n = (of_char c :: nat) in (9 \<le> n \<and> n \<le> 13) \<or> (28 \<le> n \<and> n \<le> 32))"

definition strip :: "string \<Rightarrow> string" where
  "strip s = rev (dropWhile is_space (rev (dropWhile is_space s)))"

definition digit :: "nat \<Rightarrow> char" where
  "digit n = char_of (48 + n)"

text \<open>\<open>str(n)\<close> for a non-negative integer: its decimal digits.\<close>

function str :: "nat \<Rightarrow> string" where
  "str n = (if n < 10 then [digit n] else str (n div 10) @ [digit (n mod 10)])"
  by pat_completeness auto
termination
  by (relation "measure (\<lambda>n. n)") auto

declare str.simps [simp del]

text \<open>
  A \<open>pathlib.Path\<close> is the list of its components; \<open>p / s\<close> appends a component,
  \<open>p.parent\<close> drops the last one and \<open>p.name\<close> is the last one (empty for the root).
\<close>

type_synonym path = "string list"

definition name :: "path \<Rightarrow> string" where
  "name p = (if p = [] then [] else last p)"

definition parent :: "path \<Rightarrow> path" where
  "parent p = butlast p"

text \<open>\<open>s.rfind(c)\<close>: the last index of \<open>c\<close> in \<open>s\<close>; \<open>None\<close> stands for Python's \<open>-1\<close>.\<close>

fun rfind :: "char \<Rightarrow> string \<Rightarrow> nat option" where
  "rfind c [] = None"
| "rfind c (x # xs) =
     (case rfind c xs of
        Some i \<Rightarrow> Some (Suc i)
      | None \<Rightarrow> if x = c then Some 0 else None)"

text \<open>
  \<open>Path.suffix\<close> and \<open>Path.stem\<close> as pathlib computes them: with \<open>i = name.rfind('.')\<close>,
  the name is split at \<open>i\<close> when \<open>0 < i < len(name) - 1\<close>, otherwise the suffix is empty
  and the stem is the whole name.
\<close>

definition suffix :: "path \<Rightarrow> string" where
  "suffix p =
     (let n = name p in
      case rfind CHR ''.'' n of
        None \<Rightarrow> []
      | Some i \<Rightarrow> if 0 < i \<and> i + 1 < length n then drop i n else [])"

definition stem :: "path \<Rightarrow> string" where
  "stem p =
     (let n = name p in
      case rfind CHR ''.'' n of
        None \<Rightarrow> n
      | Some i \<Rightarrow> if 0 < i \<and> i + 1 < length n then take i n else n)"

section \<open>Classifier\<close>

datatype ftype = Video | Audio | Image

definition VIDEO_EXTS :: "string set" where
  "VIDEO_EXTS = {''.mp4'', ''.mov'', ''.avi'', ''.mkv'', ''.webm''}"

definition AUDIO_EXTS :: "string set" where
  "AUDIO_EXTS = {''.mp3'', ''.wav'', ''.m4a'', ''.flac'', ''.ogg''}"

definition IMAGE_EXTS :: "string set" where
  "IMAGE_EXTS = {''.png'', ''.jpg'', ''.jpeg'', ''.webp'', ''.bmp'', ''.gif'', ''.tiff''}"

text \<open>\<open>detect_type\<close> returns \<open>"video"\<close>, \<open>"audio"\<close>, \<open>"image"\<close> or \<open>None\<close>.\<close>

definition detect_type :: "path \<Rightarrow> ftype option" where
  "detect_type file_path =
     (let ext = lower (suffix file_path) in
      if ext \<in> VIDEO_EXTS then Some Video
      else if ext \<in> AUDIO_EXTS then Some Audio
      else if ext \<in> IMAGE_EXTS then Some Image
      else None)"

definition audio_codec_for_ext :: "string \<Rightarrow> string" where
  "audio_codec_for_ext ext =
     (case map_of
        [(''.mp3'', ''libmp3lame''),
         (''.wav'', ''pcm_s16le''),
         (''.m4a'', ''aac''),
         (''.flac'', ''flac''),
         (''.ogg'', ''libvorbis'')] ext of
        Some c \<Rightarrow> c
      | None \<Rightarrow> ''aac'')"

section \<open>Path allocator\<close>

text \<open>
  The file system is a finite table from paths to nodes; the first entry of a path is
  the current one. \<open>Path.exists\<close> holds of files and folders alike.
\<close>

datatype 'c node = File 'c | Dir

type_synonym 'c filesystem = "(path \<times> 'c node) list"

definition exists :: "'c filesystem \<Rightarrow> path \<Rightarrow> bool" where
  "exists fsys p = (p \<in> set (map fst fsys))"

definition is_file :: "'c filesystem \<Rightarrow> path \<Rightarrow> bool" where
  "is_file fsys p = (case map_of fsys p of Some (File c) \<Rightarrow> True | _ \<Rightarrow> False)"

text \<open>
  The candidate tried in round \<open>i\<close> of \<open>get_unique_file_path\<close>,
  \<open>dest.parent / f"{dest.stem} ({i}){dest.suffix}"\<close>, and of \<open>get_unique_output_folder\<close>,
  \<open>base_dir.parent / f"{base_dir.name} ({i})"\<close>.
\<close>

definition candidate :: "path \<Rightarrow> nat \<Rightarrow> path" where
  "candidate dest i = parent dest @ [stem dest @ '' ('' @ str i @ '')'' @ suffix dest]"

definition folder_candidate :: "path \<Rightarrow> nat \<Rightarrow> path" where
  "folder_candidate base_dir i = parent base_dir @ [name base_dir @ '' ('' @ str i @ '')'']"

lemma digit_inj: "a < 10 \<Longrightarrow> b < 10 \<Longrightarrow> digit a = digit b \<Longrightarrow> a = b"
  by (simp add: digit_def char_of_eq_iff take_bit_eq_mod)

lemma str_nonempty: "str n \<noteq> []"
  by (subst str.simps) simp

lemma str_inj: "str n = str m \<Longrightarrow> n = m"
proof (induction n arbitrary: m rule: str.induct)
  case (1 n)
  show ?case
  proof (cases "n < 10")
    case True
    note n = this
    show ?thesis
    proof (cases "m < 10")
      case True
      with n "1.prems" show ?thesis
        by (auto simp: str.simps[of n] str.simps[of m] dest: digit_inj)
    next
      case False
      with n "1.prems" show ?thesis
        using str_nonempty[of "m div 10"]
        by (auto simp: str.simps[of n] str.simps[of m])
    qed
  next
    case False
    note n = this
    show ?thesis
    proof (cases "m < 10")
      case True
      with n "1.prems" show ?thesis
        using str_nonempty[of "n div 10"]
        by (auto simp: str.simps[of n] str.simps[of m])
    next
      case False
      with n "1.prems" have a: "str (n div 10) = str (m div 10)"
        and b: "digit (n mod 10) = digit (m mod 10)"
        by (auto simp: str.simps[of n] str.simps[of m])
      from "1.IH"[OF n a] have "n div 10 = m div 10" .
      moreover from b have "n mod 10 = m mod 10"
        using digit_inj[of "n mod 10" "m mod 10"] by simp
      ultimately show ?thesis by (metis div_mult_mod_eq)
    qed
  qed
qed

lemma candidate_inj: "candidate dest i = candidate dest j \<Longrightarrow> i = j"
  by (auto simp: candidate_def dest: str_inj)

lemma folder_candidate_inj: "folder_candidate base_dir i = folder_candidate base_dir j \<Longrightarrow> i = j"
  by (auto simp: folder_candidate_def dest: str_inj)

lemma taken_decreases:
  assumes inj: "\<And>i j. f i = f j \<Longrightarrow> i = j" and mem: "f i \<in> set ex"
  shows "card {j. i + 1 \<le> j \<and> f j \<in> set ex} < card {j. (i::nat) \<le> j \<and> f j \<in> set ex}"
proof -
  have "inj f" by (rule injI) (rule inj)
  then have "finite (f -` set ex)" by (intro finite_vimageI) simp_all
  then have fin: "finite {j. i \<le> j \<and> f j \<in> set ex}"
    by (rule rev_finite_subset) auto
  have "{j. i + 1 \<le> j \<and> f j \<in> set ex} \<subset> {j. i \<le> j \<and> f j \<in> set ex}"
  proof
    show "{j. i + 1 \<le> j \<and> f j \<in> set ex} \<subseteq> {j. i \<le> j \<and> f j \<in> set ex}"
      by auto
    have "i \<in> {j. i \<le> j \<and> f j \<in> set ex}" using mem by simp
    moreover have "i \<notin> {j. i + 1 \<le> j \<and> f j \<in> set ex}" by simp
    ultimately show "{j. i + 1 \<le> j \<and> f j \<in> set ex} \<noteq> {j. i \<le> j \<and> f j \<in> set ex}"
      by blast
  qed
  then show ?thesis by (rule psubset_card_mono[OF fin])
qed

text \<open>
  The \<open>while True\<close> loop of \<open>get_unique_file_path\<close>, entered with counter \<open>i\<close>; \<open>ex\<close> lists
  the paths that exist. It ends because the candidates are pairwise distinct and only
  finitely many paths exist.
\<close>

function unique_from :: "path list \<Rightarrow> path \<Rightarrow> nat \<Rightarrow> path" where
  "unique_from ex dest i =
     (if candidate dest i \<notin> set ex then candidate dest i else unique_from ex dest (i + 1))"
  by pat_completeness auto
termination
proof (relation "measure (\<lambda>(ex, dest, i). card {j. i \<le> j \<and> candidate dest j \<in> set ex})")
  show "wf (measure (\<lambda>(ex, dest, i). card {j. i \<le> j \<and> candidate dest j \<in> set ex}))"
    by simp
next
  fix ex :: "path list" and dest :: path and i :: nat
  assume "\<not> candidate dest i \<notin> set ex"
  then have mem: "candidate dest i \<in> set ex" by simp
  have "card {j. i + 1 \<le> j \<and> candidate dest j \<in> set ex}
               < card {j. i \<le> j \<and> candidate dest j \<in> set ex}"
  proof (rule taken_decreases)
    show "\<And>a b. candidate dest a = candidate dest b \<Longrightarrow> a = b" by (rule candidate_inj)
    show "candidate dest i \<in> set ex" by (rule mem)
  qed
  then show "((ex, dest, i + 1), (ex, dest, i))
               \<in> measure (\<lambda>(ex, dest, i). card {j. i \<le> j \<and> candidate dest j \<in> set ex})"
    by simp
qed

text \<open>The same loop in \<open>get_unique_output_folder\<close>.\<close>

function unique_folder_from :: "path list \<Rightarrow> path \<Rightarrow> nat \<Rightarrow> path" where
  "unique_folder_from ex base_dir i =
     (if folder_candidate base_dir i \<notin> set ex then folder_candidate base_dir i
      else unique_folder_from ex base_dir (i + 1))"
  by pat_completeness auto
termination
proof (relation
    "measure (\<lambda>(ex, base_dir, i). card {j. i \<le> j \<and> folder_candidate base_dir j \<in> set ex})")
  show "wf (measure
      (\<lambda>(ex, base_dir, i). card {j. i \<le> j \<and> folder_candidate base_dir j \<in> set ex}))"
    by simp
next
  fix ex :: "path list" and base_dir :: path and i :: nat
  assume "\<not> folder_candidate base_dir i \<notin> set ex"
  then have mem: "folder_candidate base_dir i \<in> set ex" by simp
  have "card {j. i + 1 \<le> j \<and> folder_candidate base_dir j \<in> set ex}
               < card {j. i \<le> j \<and> folder_candidate base_dir j \<in> set ex}"
  proof (rule taken_decreases)
    show "\<And>a b. folder_candidate base_dir a = folder_candidate base_dir b \<Longrightarrow> a = b"
      by (rule folder_candidate_inj)
    show "folder_candidate base_dir i \<in> set ex" by (rule mem)
  qed
  then show "((ex, base_dir, i + 1), (ex, base_dir, i))
               \<in> measure
                  (\<lambda>(ex, base_dir, i). card {j. i \<le> j \<and> folder_candidate base_dir j \<in> set ex})"
    by simp
qed

declare unique_folder_from.simps [simp del]

declare unique_from.simps [simp del]

definition get_unique_file_path :: "'c filesystem \<Rightarrow> path \<Rightarrow> path" where
  "get_unique_file_path fsys dest =
     (if \<not> exists fsys dest then dest else unique_from (map fst fsys) dest 1)"

definition get_unique_output_folder :: "'c filesystem \<Rightarrow> path \<Rightarrow> path" where
  "get_unique_output_folder fsys base_dir =
     (if \<not> exists fsys base_dir then base_dir else unique_folder_from (map fst fsys) base_dir 1)"

section \<open>Run state and the external codec collaborator\<close>

text \<open>
  The calls the program makes to the operator prompts, to \<open>shutil.copy2\<close> and to the
  media libraries, in the order they are made. An entry is added when the call is made,
  whether or not it then raises.
\<close>

datatype call =
    AskConversion
  | AskExtension ftype
  | Copy2 path path
  | OpenVideo path
  | OpenAudio path
  | OpenImage path
  | WriteVideo path path string "string option"
  | WriteAudio path path string
  | SaveImage path path bool

text \<open>
  The module's globals (the four counters of \<open>summary\<close> and the three name lists), the
  file system, the operator's remaining input lines, the texts written to standard
  output (one entry per \<open>print\<close> or prompt) and the call log.
\<close>

record 'c state =
  converted :: nat
  copied :: nat
  skipped :: nat
  failed :: nat
  correct_format_files :: "string list"
  failed_files :: "string list"
  skipped_files :: "string list"
  fs :: "'c filesystem"
  stdin :: "string list"
  stdout :: "string list"
  calls :: "call list"

text \<open>
  The media libraries (moviepy, PIL) are outside the program: they are a parameter.
  Each operation returns \<open>Inl\<close> of the error text when it raises.
  \<open>VideoFileClip\<close> gives whether \<open>clip.audio\<close> is present, \<open>Image_open\<close> gives \<open>img.mode\<close>;
  the writers get the source, the destination path and the codecs, \<open>Image_save\<close> gets
  whether the image was first converted to RGB; they give the file written.
\<close>

record 'c collaborator =
  VideoFileClip :: "'c \<Rightarrow> string + bool"
  AudioFileClip :: "'c \<Rightarrow> string + unit"
  write_videofile :: "'c \<Rightarrow> path \<Rightarrow> string \<Rightarrow> string option \<Rightarrow> string + 'c"
  write_audiofile :: "'c \<Rightarrow> path \<Rightarrow> string \<Rightarrow> string + 'c"
  Image_open :: "'c \<Rightarrow> string + string"
  Image_save :: "'c \<Rightarrow> bool \<Rightarrow> path \<Rightarrow> string + 'c"

text \<open>A function of the program returns \<open>Inl\<close> of the exception it raises, or its value.\<close>

type_synonym ('a, 'c) result = "(string + 'a) \<times> 'c state"

definition print :: "string \<Rightarrow> 'c state \<Rightarrow> 'c state" where
  "print s st = st\<lparr>stdout := stdout st @ [s]\<rparr>"

definition log_call :: "call \<Rightarrow> 'c state \<Rightarrow> 'c state" where
  "log_call c st = st\<lparr>calls := calls st @ [c]\<rparr>"

text \<open>\<open>input(prompt)\<close>: writes the prompt and reads a line; \<open>EOFError\<close> at the end of input.\<close>

definition input :: "string \<Rightarrow> 'c state \<Rightarrow> (string, 'c) result" where
  "input prompt st =
     (case stdin st of
        [] \<Rightarrow> (Inl ''EOF when reading a line'', print prompt st)
      | l # ls \<Rightarrow> (Inr l, print prompt (st\<lparr>stdin := ls\<rparr>)))"

text \<open>Opening a source for reading fails unless it is a file.\<close>

definition read_file :: "'c filesystem \<Rightarrow> path \<Rightarrow> string + 'c" where
  "read_file fsys p =
     (case map_of fsys p of
        Some (File c) \<Rightarrow> Inr c
      | _ \<Rightarrow> Inl ''No such file or directory'')"

definition write_file :: "path \<Rightarrow> 'c \<Rightarrow> 'c state \<Rightarrow> 'c state" where
  "write_file p c st = st\<lparr>fs := (p, File c) # fs st\<rparr>"

section \<open>Conversion matrix\<close>

definition copy_same_format :: "path \<Rightarrow> path \<Rightarrow> 'c state \<Rightarrow> (bool, 'c) result" where
  "copy_same_format src dest st =
     (if lower (suffix src) = lower (suffix dest) then
        let dest = (if exists (fs st) dest then get_unique_file_path (fs st) dest else dest);
            st1 = log_call (Copy2 src dest) st
        in (case read_file (fs st1) src of
             Inl e \<Rightarrow> (Inl e, st1)
           | Inr c \<Rightarrow>
               (Inr True,
                print (''Copied (already correct format): '' @ name src)
                  ((write_file dest c st1)
                     \<lparr>copied := copied st1 + 1,
                      correct_format_files := correct_format_files st1 @ [name dest]\<rparr>)))
      else (Inr False, st))"

definition convert_video_to_video ::
  "'c collaborator \<Rightarrow> path \<Rightarrow> path \<Rightarrow> 'c state \<Rightarrow> (unit, 'c) result" where
  "convert_video_to_video env src dest st =
     (let st1 = log_call (OpenVideo src) st in
      case read_file (fs st1) src of
        Inl e \<Rightarrow> (Inl e, st1)
      | Inr c \<Rightarrow>
          (case VideoFileClip env c of
             Inl e \<Rightarrow> (Inl e, st1)
           | Inr audio_present \<Rightarrow>
               let codec = (if lower (suffix dest) = ''.webm'' then ''libvpx-vp9'' else ''libx264'');
                   audio_codec =
                     (if lower (suffix dest) = ''.webm''
                      then (if audio_present then Some ''libopus'' else None)
                      else (if audio_present then Some ''aac'' else None));
                   st2 = log_call (WriteVideo src dest codec audio_codec) st1
               in (case write_videofile env c dest codec audio_codec of
                    Inl e \<Rightarrow> (Inl e, st2)
                  | Inr out \<Rightarrow>
                      (Inr (), (write_file dest out st2)\<lparr>converted := converted st2 + 1\<rparr>))))"

definition convert_video_to_audio ::
  "'c collaborator \<Rightarrow> path \<Rightarrow> path \<Rightarrow> 'c state \<Rightarrow> (unit, 'c) result" where
  "convert_video_to_audio env src dest st =
     (let st1 = log_call (OpenVideo src) st in
      case read_file (fs st1) src of
        Inl e \<Rightarrow> (Inl e, st1)
      | Inr c \<Rightarrow>
          (case VideoFileClip env c of
             Inl e \<Rightarrow> (Inl e, st1)
           | Inr audio_present \<Rightarrow>
               if \<not> audio_present then
                 (Inr (),
                  print (''Skipped (no audio): '' @ name src)
                    (st1\<lparr>skipped := skipped st1 + 1,
                         skipped_files := skipped_files st1 @ [name src]\<rparr>))
               else
                 let codec = audio_codec_for_ext (lower (suffix dest));
                     st2 = log_call (WriteAudio src dest codec) st1
                 in (case write_audiofile env c dest codec of
                      Inl e \<Rightarrow> (Inl e, st2)
                    | Inr out \<Rightarrow>
                        (Inr (), (write_file dest out st2)\<lparr>converted := converted st2 + 1\<rparr>))))"

definition convert_audio_to_audio ::
  "'c collaborator \<Rightarrow> path \<Rightarrow> path \<Rightarrow> 'c state \<Rightarrow> (unit, 'c) result" where
  "convert_audio_to_audio env src dest st =
     (let st1 = log_call (OpenAudio src) st in
      case read_file (fs st1) src of
        Inl e \<Rightarrow> (Inl e, st1)
      | Inr c \<Rightarrow>
          (case AudioFileClip env c of
             Inl e \<Rightarrow> (Inl e, st1)
           | Inr u \<Rightarrow>
               let codec = audio_codec_for_ext (lower (suffix dest));
                   st2 = log_call (WriteAudio src dest codec) st1
               in (case write_audiofile env c dest codec of
                    Inl e \<Rightarrow> (Inl e, st2)
                  | Inr out \<Rightarrow>
                      (Inr (), (write_file dest out st2)\<lparr>converted := converted st2 + 1\<rparr>))))"

definition convert_image_to_image ::
  "'c collaborator \<Rightarrow> path \<Rightarrow> path \<Rightarrow> 'c state \<Rightarrow> (unit, 'c) result" where
  "convert_image_to_image env src dest st =
     (let st1 = log_call (OpenImage src) st in
      case read_file (fs st1) src of
        Inl e \<Rightarrow> (Inl e, st1)
      | Inr c \<Rightarrow>
          (case Image_open env c of
             Inl e \<Rightarrow> (Inl e, st1)
           | Inr mode \<Rightarrow>
               let rgb = (lower (suffix dest) \<in> {''.jpg'', ''.jpeg''} \<and> mode \<noteq> ''RGB'');
                   st2 = log_call (SaveImage src dest rgb) st1
               in (case Image_save env c rgb dest of
                    Inl e \<Rightarrow> (Inl e, st2)
                  | Inr out \<Rightarrow>
                      (Inr (), (write_file dest out st2)\<lparr>converted := converted st2 + 1\<rparr>))))"

section \<open>Operator prompts\<close>

lemma input_consumes:
  "input prompt st = (Inr l, st1) \<Longrightarrow> length (stdin st1) < length (stdin st)"
  by (auto simp: input_def print_def split: list.splits)

lemma stdin_print [simp]: "stdin (print s st) = stdin st"
  by (simp add: print_def)

lemma stdin_log_call [simp]: "stdin (log_call c st) = stdin st"
  by (simp add: log_call_def)

text \<open>The arrow and the bullet of the program's messages, as their UTF-8 bytes.\<close>

definition arrow :: string where
  "arrow = [CHR 0xE2, CHR 0x86, CHR 0x92]"

definition bullet :: string where
  "bullet = [CHR 0xE2, CHR 0x80, CHR 0xA2]"

text \<open>The \<open>while True\<close> loop of \<open>choose_conversion_for_video\<close>: one round per input line.\<close>

function choose_conversion_loop :: "'c state \<Rightarrow> (string, 'c) result" where
  "choose_conversion_loop st =
     (case input ''Choose (1/2): ''
             (print (''2) Video '' @ arrow @ '' Audio'')
               (print (''1) Video '' @ arrow @ '' Video'')
                 (print ''Video conversion options:'' st))) of
        (Inl e, st1) \<Rightarrow> (Inl e, st1)
      | (Inr l, st1) \<Rightarrow>
          (let choice = strip l in
           if choice = ''1'' \<or> choice = ''2'' then (Inr choice, st1)
           else choose_conversion_loop (print ''Invalid Selection'' st1)))"
  by pat_completeness auto
termination
  by (relation "measure (\<lambda>st. length (stdin st))") (auto dest!: input_consumes sym[of "(_, _)"])

declare choose_conversion_loop.simps [simp del]

definition choose_conversion_for_video :: "'c state \<Rightarrow> (string, 'c) result" where
  "choose_conversion_for_video st = choose_conversion_loop (log_call AskConversion st)"

text \<open>The \<open>while True\<close> loops of \<open>choose_extension\<close>, which differ in the prompt and the accepted answers.\<close>

function choose_extension_loop :: "string \<Rightarrow> string list \<Rightarrow> 'c state \<Rightarrow> (string, 'c) result" where
  "choose_extension_loop prompt accepted st =
     (case input prompt st of
        (Inl e, st1) \<Rightarrow> (Inl e, st1)
      | (Inr l, st1) \<Rightarrow>
          (let dest_ext = lower (strip l) in
           if dest_ext \<in> set accepted then (Inr dest_ext, st1)
           else choose_extension_loop prompt accepted (print ''Invalid Selection'' st1)))"
  by pat_completeness auto
termination
  by (relation "measure (\<lambda>(prompt, accepted, st). length (stdin st))")
    (auto dest!: input_consumes sym[of "(_, _)"])

declare choose_extension_loop.simps [simp del]

definition choose_extension :: "ftype \<Rightarrow> 'c state \<Rightarrow> (string, 'c) result" where
  "choose_extension ftype st =
     (let st0 = log_call (AskExtension ftype) st in
      case ftype of
        Video \<Rightarrow>
          choose_extension_loop ''Enter video extension of output (mp4, mov, avi, mkv, webm): ''
            [''mp4'', ''mov'', ''avi'', ''mkv'', ''webm''] st0
      | Audio \<Rightarrow>
          choose_extension_loop ''Enter audio extension of output (mp3, wav, m4a, flac, ogg): ''
            [''mp3'', ''wav'', ''m4a'', ''flac'', ''ogg''] st0
      | Image \<Rightarrow>
          choose_extension_loop ''Enter image extension of output (png, jpg, jpeg, bmp, gif, tiff): ''
            [''png'', ''jpg'', ''jpeg'', ''webp'', ''bmp'', ''gif'', ''tiff''] st0)"

section \<open>Single file and batch planner\<close>

fun ftype_str :: "ftype \<Rightarrow> string" where
  "ftype_str Video = ''video''"
| "ftype_str Audio = ''audio''"
| "ftype_str Image = ''image''"

type_synonym 'c convert = "path \<Rightarrow> path \<Rightarrow> 'c state \<Rightarrow> (unit, 'c) result"

text \<open>
  The three statements every conversion path runs for one file \<open>f\<close>:
  \<^verbatim>\<open>dest = get_unique_file_path(out_dir / f"{f.stem}.{dest_ext}")\<close>,
  \<^verbatim>\<open>if copy_same_format(f, dest): continue\<close> (\<open>return\<close> in \<open>convert_single_file\<close>), and the call
  of the conversion function. In \<open>convert_all_same_type\<close> that call stands in a
  \<open>try\<close> whose handler records the failure (\<open>guarded\<close>); in the multiple-types branch of
  \<open>convert_folder\<close> and in \<open>convert_single_file\<close> it stands bare.
\<close>

definition convert_file ::
  "bool \<Rightarrow> 'c convert \<Rightarrow> path \<Rightarrow> string \<Rightarrow> path \<Rightarrow> 'c state \<Rightarrow> (unit, 'c) result" where
  "convert_file guarded convert out_dir dest_ext f st =
     (let dest = get_unique_file_path (fs st) (out_dir @ [stem f @ ''.'' @ dest_ext]) in
      case copy_same_format f dest st of
        (Inl e, st1) \<Rightarrow> (Inl e, st1)
      | (Inr True, st1) \<Rightarrow> (Inr (), st1)
      | (Inr False, st1) \<Rightarrow>
          if guarded then
            (case convert f dest st1 of
               (Inl e, st2) \<Rightarrow>
                 (Inr (),
                  (print (''Failed: '' @ name f @ '' - '' @ e) st2)
                    \<lparr>failed := failed st2 + 1, failed_files := failed_files st2 @ [name f]\<rparr>)
             | (Inr u, st2) \<Rightarrow> (Inr (), st2))
          else convert f dest st1)"

text \<open>A \<open>for\<close> loop whose body may raise: the exception leaves the loop.\<close>

fun for_each :: "('a \<Rightarrow> 'c state \<Rightarrow> (unit, 'c) result) \<Rightarrow> 'a list \<Rightarrow> 'c state \<Rightarrow> (unit, 'c) result" where
  "for_each body [] st = (Inr (), st)"
| "for_each body (x # xs) st =
     (case body x st of
        (Inl e, st1) \<Rightarrow> (Inl e, st1)
      | (Inr u, st1) \<Rightarrow> for_each body xs st1)"

text \<open>
  The branch on \<open>ftype\<close> that asks the operator once and then loops over the files:
  the body of \<open>convert_all_same_type\<close> (\<open>guarded\<close>) and the body of the loop over
  \<open>non_empty.items()\<close> in \<open>convert_folder\<close> (not \<open>guarded\<close>).
\<close>

definition convert_group ::
  "bool \<Rightarrow> 'c collaborator \<Rightarrow> ftype \<Rightarrow> path list \<Rightarrow> path \<Rightarrow> 'c state \<Rightarrow> (unit, 'c) result" where
  "convert_group guarded env ftype files out_dir st =
     (case ftype of
        Video \<Rightarrow>
          (case choose_conversion_for_video st of
             (Inl e, st1) \<Rightarrow> (Inl e, st1)
           | (Inr choice, st1) \<Rightarrow>
               if choice = ''1'' then
                 (case choose_extension Video st1 of
                    (Inl e, st2) \<Rightarrow> (Inl e, st2)
                  | (Inr dest_ext, st2) \<Rightarrow>
                      for_each (convert_file guarded (convert_video_to_video env) out_dir dest_ext)
                        files st2)
               else
                 (case choose_extension Audio st1 of
                    (Inl e, st2) \<Rightarrow> (Inl e, st2)
                  | (Inr dest_ext, st2) \<Rightarrow>
                      for_each (convert_file guarded (convert_video_to_audio env) out_dir dest_ext)
                        files st2))
      | Audio \<Rightarrow>
          (case choose_extension Audio st of
             (Inl e, st1) \<Rightarrow> (Inl e, st1)
           | (Inr dest_ext, st1) \<Rightarrow>
               for_each (convert_file guarded (convert_audio_to_audio env) out_dir dest_ext)
                 files st1)
      | Image \<Rightarrow>
          (case choose_extension Image st of
             (Inl e, st1) \<Rightarrow> (Inl e, st1)
           | (Inr dest_ext, st1) \<Rightarrow>
               for_each (convert_file guarded (convert_image_to_image env) out_dir dest_ext)
                 files st1))"

definition convert_all_same_type ::
  "'c collaborator \<Rightarrow> ftype \<Rightarrow> path list \<Rightarrow> path \<Rightarrow> 'c state \<Rightarrow> (unit, 'c) result" where
  "convert_all_same_type env ftype files out_dir st = convert_group True env ftype files out_dir st"

text \<open>The \<open>try\<close> block of \<open>convert_single_file\<close>.\<close>

definition convert_single_try ::
  "'c collaborator \<Rightarrow> ftype \<Rightarrow> path \<Rightarrow> path \<Rightarrow> 'c state \<Rightarrow> (unit, 'c) result" where
  "convert_single_try env ftype src out_dir st =
     (case ftype of
        Video \<Rightarrow>
          (case choose_conversion_for_video st of
             (Inl e, st1) \<Rightarrow> (Inl e, st1)
           | (Inr choice, st1) \<Rightarrow>
               if choice = ''1'' then
                 (case choose_extension Video st1 of
                    (Inl e, st2) \<Rightarrow> (Inl e, st2)
                  | (Inr dest_ext, st2) \<Rightarrow>
                      convert_file False (convert_video_to_video env) out_dir dest_ext src st2)
               else
                 (case choose_extension Audio st1 of
                    (Inl e, st2) \<Rightarrow> (Inl e, st2)
                  | (Inr dest_ext, st2) \<Rightarrow>
                      convert_file False (convert_video_to_audio env) out_dir dest_ext src st2))
      | Audio \<Rightarrow>
          (case choose_extension Audio st of
             (Inl e, st1) \<Rightarrow> (Inl e, st1)
           | (Inr dest_ext, st1) \<Rightarrow>
               convert_file False (convert_audio_to_audio env) out_dir dest_ext src st1)
      | Image \<Rightarrow>
          (case choose_extension Image st of
             (Inl e, st1) \<Rightarrow> (Inl e, st1)
           | (Inr dest_ext, st1) \<Rightarrow>
               convert_file False (convert_image_to_image env) out_dir dest_ext src st1))"

definition convert_single_file ::
  "'c collaborator \<Rightarrow> path \<Rightarrow> path \<Rightarrow> 'c state \<Rightarrow> (unit, 'c) result" where
  "convert_single_file env src out_dir st =
     (case detect_type src of
        None \<Rightarrow>
          (Inr (),
           (print (''Skipped (unsupported type): '' @ name src) st)
             \<lparr>skipped := skipped st + 1, skipped_files := skipped_files st @ [name src]\<rparr>)
      | Some ftype \<Rightarrow>
          (case convert_single_try env ftype src out_dir
                  (print (''Detected file type: '' @ upper (ftype_str ftype)) st) of
             (Inl e, st1) \<Rightarrow>
               (Inr (),
                (print (''Failed to convert '' @ name src @ '': '' @ e) st1)
                  \<lparr>failed := failed st1 + 1, failed_files := failed_files st1 @ [name src]\<rparr>)
           | (Inr u, st1) \<Rightarrow> (Inr (), st1)))"

text \<open>\<open>folder.iterdir()\<close>: the entries whose parent is the folder.\<close>

definition iterdir :: "'c filesystem \<Rightarrow> path \<Rightarrow> path list" where
  "iterdir fsys folder = [p \<leftarrow> remdups (map fst fsys). p \<noteq> [] \<and> parent p = folder]"

text \<open>
  The first loop of \<open>convert_folder\<close>; \<open>types\<close> is the dictionary
  \<open>{"video": [], "audio": [], "image": []}\<close>, in its insertion order.
\<close>

fun sort_files ::
  "path list \<Rightarrow> (ftype \<times> path list) list \<Rightarrow> 'c state \<Rightarrow> (ftype \<times> path list) list \<times> 'c state" where
  "sort_files [] types st = (types, st)"
| "sort_files (f # files) types st =
     (case detect_type f of
        Some ftype \<Rightarrow>
          sort_files files (map (\<lambda>(k, v). if k = ftype then (k, v @ [f]) else (k, v)) types) st
      | None \<Rightarrow>
          sort_files files types
            ((print (''Skipped (unsupported type): '' @ name f)
                (st\<lparr>skipped_files := skipped_files st @ [name f]\<rparr>))
               \<lparr>skipped := skipped st + 1\<rparr>))"

definition convert_folder ::
  "'c collaborator \<Rightarrow> path \<Rightarrow> path \<Rightarrow> 'c state \<Rightarrow> (unit, 'c) result" where
  "convert_folder env folder out_dir st =
     (let files = [f \<leftarrow> iterdir (fs st) folder. is_file (fs st) f] in
      case sort_files files [(Video, []), (Audio, []), (Image, [])] st of
        (types, st1) \<Rightarrow>
          (let non_empty = [(k, v) \<leftarrow> types. v \<noteq> []] in
           case non_empty of
             [(ftype, flist)] \<Rightarrow>
               convert_all_same_type env ftype flist out_dir
                 (print (''Folder contains only '' @ ftype_str ftype @ '' files.'') st1)
           | _ \<Rightarrow>
               for_each
                 (\<lambda>(ftype, flist) st2.
                    convert_group False env ftype flist out_dir
                      (print (CHR 0x0A # upper (ftype_str ftype) @ '' files found: ''
                                @ str (length flist)) st2))
                 non_empty
                 (print ''Folder contains multiple file types.'' st1)))"

section \<open>Result aggregator report and entry point\<close>

text \<open>A \<open>for\<close> loop that prints one bullet line per recorded name.\<close>

fun print_names :: "string list \<Rightarrow> 'c state \<Rightarrow> 'c state" where
  "print_names [] st = st"
| "print_names (f # names) st = print_names names (print (''    '' @ bullet @ '' '' @ f) st)"

definition print_summary :: "'c state \<Rightarrow> 'c state" where
  "print_summary st =
     (let st = print (CHR 0x0A # ''==== SUMMARY ===='') st;
          st = print (''Converted: '' @ str (converted st)) st;
          st = print (''Copied (already correct format): '' @ str (copied st)) st;
          st = (if copied st > 0
                then print_names (correct_format_files st)
                       (print ''  - Files already correct format:'' st)
                else st);
          st = print (''Skipped: '' @ str (skipped st)) st;
          st = (if skipped st > 0
                then print_names (skipped_files st) (print ''  - Skipped files:'' st)
                else st);
          st = print (''Failed: '' @ str (failed st)) st;
          st = (if failed st > 0
                then print_names (failed_files st) (print ''  - Failed files:'' st)
                else st)
      in print ''================='' st)"

definition is_dir :: "'c filesystem \<Rightarrow> path \<Rightarrow> bool" where
  "is_dir fsys p = (case map_of fsys p of Some Dir \<Rightarrow> True | _ \<Rightarrow> False)"

text \<open>
  \<open>Path(text)\<close> parses the operator's text; the parser belongs to pathlib and is the
  parameter \<open>to_path\<close> of the prompts that use it.
\<close>

function get_target :: "(string \<Rightarrow> path) \<Rightarrow> 'c state \<Rightarrow> (path, 'c) result" where
  "get_target to_path st =
     (case input ''Enter target file or folder path: '' st of
        (Inl e, st1) \<Rightarrow> (Inl e, st1)
      | (Inr l, st1) \<Rightarrow>
          (let target = strip l in
           if target = [] then get_target to_path (print ''Please enter a valid path'' st1)
           else
             let target_path = to_path target in
             if \<not> exists (fs st1) target_path
             then get_target to_path (print ''That path does not exist. Try again.'' st1)
             else (Inr target_path, st1)))"
  by pat_completeness auto
termination
  by (relation "measure (\<lambda>(to_path, st). length (stdin st))")
    (auto dest!: input_consumes sym[of "(_, _)"])

declare get_target.simps [simp del]

text \<open>The \<open>while\<close> loop of \<open>get_output_folder\<close>, entered with the path read so far.\<close>

function output_folder_loop ::
  "(string \<Rightarrow> path) \<Rightarrow> path \<Rightarrow> path \<Rightarrow> 'c state \<Rightarrow> (path \<times> bool, 'c) result" where
  "output_folder_loop to_path default_dir out_path st =
     (if \<not> exists (fs st) out_path \<or> \<not> is_dir (fs st) out_path then
        (case input ''Invalid folder. Re-enter path or press Enter to skip: '' st of
           (Inl e, st1) \<Rightarrow> (Inl e, st1)
         | (Inr l, st1) \<Rightarrow>
             (let retry = strip l in
              if retry = [] then (Inr (default_dir, False), st1)
              else output_folder_loop to_path default_dir (to_path retry) st1))
      else (Inr (out_path, True), st))"
  by pat_completeness auto
termination
  by (relation "measure (\<lambda>(to_path, default_dir, out_path, st). length (stdin st))")
    (auto dest!: input_consumes sym[of "(_, _)"])

declare output_folder_loop.simps [simp del]

definition get_output_folder ::
  "(string \<Rightarrow> path) \<Rightarrow> path \<Rightarrow> 'c state \<Rightarrow> (path \<times> bool, 'c) result" where
  "get_output_folder to_path default_dir st =
     (case input ''Enter output folder (press Enter for default): '' st of
        (Inl e, st1) \<Rightarrow> (Inl e, st1)
      | (Inr l, st1) \<Rightarrow>
          (let out = strip l in
           if out = [] then (Inr (default_dir, False), st1)
           else output_folder_loop to_path default_dir (to_path out) st1))"

text \<open>
  \<open>out_dir.mkdir(parents=True, exist_ok=True)\<close>: the folder and its missing ancestors are
  created; it raises when the path or an ancestor is a file.
\<close>

definition mkdir :: "path \<Rightarrow> 'c state \<Rightarrow> (unit, 'c) result" where
  "mkdir p st =
     (let ancestors = [take n p. n \<leftarrow> [1..<length p + 1]] in
      if list_ex (is_file (fs st)) ancestors then (Inl ''File exists'', st)
      else (Inr (), st\<lparr>fs := [(d, Dir). d \<leftarrow> ancestors, \<not> exists (fs st) d] @ fs st\<rparr>))"

definition main :: "'c collaborator \<Rightarrow> (string \<Rightarrow> path) \<Rightarrow> 'c state \<Rightarrow> (unit, 'c) result" where
  "main env to_path st =
     (case get_target to_path st of
        (Inl e, st1) \<Rightarrow> (Inl e, st1)
      | (Inr target, st1) \<Rightarrow>
          (let default_out =
                 (if is_file (fs st1) target then parent target @ [''Converted Media'']
                  else target @ [''Converted Media''])
           in case get_output_folder to_path default_out st1 of
                (Inl e, st2) \<Rightarrow> (Inl e, st2)
              | (Inr (out_dir, choice), st2) \<Rightarrow>
                  (let out_dir =
                         (if \<not> choice then get_unique_output_folder (fs st2) out_dir else out_dir)
                   in case mkdir out_dir st2 of
                        (Inl e, st3) \<Rightarrow> (Inl e, st3)
                      | (Inr u, st3) \<Rightarrow>
                          (case (if is_file (fs st3) target
                                 then convert_single_file env target out_dir st3
                                 else if is_dir (fs st3) target
                                 then convert_folder env target out_dir st3
                                 else (Inr (),
                                       (print ''Target is neither a file nor folder.'' st3)
                                         \<lparr>failed := failed st3 + 1\<rparr>)) of
                             (Inl e, st4) \<Rightarrow> (Inl e, st4)
                           | (Inr u, st4) \<Rightarrow> (Inr (), print_summary st4)))))"

text \<open>The state at process start: empty summary, nothing written, no call made.\<close>

definition initial :: "'c filesystem \<Rightarrow> string list \<Rightarrow> 'c state" where
  "initial fsys lines =
     \<lparr>converted = 0, copied = 0, skipped = 0, failed = 0,
      correct_format_files = [], failed_files = [], skipped_files = [],
      fs = fsys, stdin = lines, stdout = [], calls = []\<rparr>"

section \<open>Facts about names and the allocator loop\<close>

lemma lower_char_dot [simp]: "lower_char c = CHR ''.'' \<longleftrightarrow> c = CHR ''.''"
proof
  assume a: "lower_char c = CHR ''.''"
  show "c = CHR ''.''"
  proof (cases "65 \<le> (of_char c :: nat) \<and> (of_char c :: nat) \<le> 90")
    case True
    with a have "char_of ((of_char c :: nat) + 32) = CHR ''.''" by (simp add: lower_char_def)
    then have "(of_char (char_of ((of_char c :: nat) + 32) :: char) :: nat) = of_char CHR ''.''" by simp
    with True show ?thesis by (simp add: of_char_of)
  next
    case False
    with a show ?thesis by (auto simp: lower_char_def Let_def)
  qed
next
  assume "c = CHR ''.''"
  then show "lower_char c = CHR ''.''" by (simp add: lower_char_def)
qed

lemma rfind_lower [simp]: "rfind CHR ''.'' (map lower_char s) = rfind CHR ''.'' s"
  by (induction s) (auto split: option.splits)

lemma name_snoc [simp]: "name (d @ [n]) = n"
  by (simp add: name_def)

lemma parent_snoc [simp]: "parent (d @ [n]) = d"
  by (simp add: parent_def)

lemma suffix_lower: "suffix (d @ [lower n]) = lower (suffix (e @ [n]))"
  by (simp add: suffix_def lower_def drop_map split: option.splits)

lemma rfind_append_dot:
  "c \<notin> set e \<Longrightarrow> rfind c (s @ c # e) = Some (length s)"
proof (induction s)
  case Nil
  have "c \<notin> set e \<Longrightarrow> rfind c e = None" by (induction e) (auto split: option.splits)
  with Nil show ?case by simp
next
  case (Cons a s)
  then show ?case by simp
qed

lemma suffix_ext:
  "s \<noteq> [] \<Longrightarrow> e \<noteq> [] \<Longrightarrow> CHR ''.'' \<notin> set e \<Longrightarrow> suffix (d @ [s @ ''.'' @ e]) = ''.'' @ e"
  by (simp add: suffix_def rfind_append_dot)

lemma stem_ext:
  "s \<noteq> [] \<Longrightarrow> e \<noteq> [] \<Longrightarrow> CHR ''.'' \<notin> set e \<Longrightarrow> stem (d @ [s @ ''.'' @ e]) = s"
  by (simp add: stem_def rfind_append_dot)


lemma unique_from_first:
  "\<exists>n\<ge>i. unique_from ex dest i = candidate dest n \<and> candidate dest n \<notin> set ex
      \<and> (\<forall>m. i \<le> m \<and> m < n \<longrightarrow> candidate dest m \<in> set ex)"
proof (induction ex dest i rule: unique_from.induct)
  case (1 ex dest i)
  show ?case
  proof (cases "candidate dest i \<in> set ex")
    case False
    then have "unique_from ex dest i = candidate dest i"
      by (simp add: unique_from.simps[of ex dest i])
    with False show ?thesis by (intro exI[of _ i]) auto
  next
    case True
    then have eq: "unique_from ex dest i = unique_from ex dest (i + 1)"
      by (simp add: unique_from.simps[of ex dest i])
    from "1.IH" True obtain n where n: "i + 1 \<le> n"
      "unique_from ex dest (i + 1) = candidate dest n" "candidate dest n \<notin> set ex"
      "\<forall>m. i + 1 \<le> m \<and> m < n \<longrightarrow> candidate dest m \<in> set ex"
      by auto
    have "\<forall>m. i \<le> m \<and> m < n \<longrightarrow> candidate dest m \<in> set ex"
    proof (intro allI impI)
      fix m assume "i \<le> m \<and> m < n"
      then show "candidate dest m \<in> set ex" using True n(4) by (cases "m = i") auto
    qed
    with n eq show ?thesis by (intro exI[of _ n]) auto
  qed
qed

section \<open>Path allocator: correctness\<close>

text \<open>
  C5. For every candidate path, \<open>get_unique_file_path\<close> returns the candidate unchanged when
  nothing exists at it; otherwise it returns the path \<open><stem> (n)<suffix>\<close> in the same
  folder for the first \<open>n = 1, 2, \<dots>\<close> at which nothing exists (all smaller \<open>n\<close> are taken).
  In both cases nothing exists at the returned path.
\<close>

theorem get_unique_file_path_first_free:
  "(\<not> exists fsys dest \<longrightarrow> get_unique_file_path fsys dest = dest)
   \<and> (exists fsys dest \<longrightarrow>
        (\<exists>n\<ge>1. get_unique_file_path fsys dest
                  = parent dest @ [stem dest @ '' ('' @ str n @ '')'' @ suffix dest]
               \<and> (\<forall>m. 1 \<le> m \<and> m < n \<longrightarrow> exists fsys (candidate dest m))))
   \<and> \<not> exists fsys (get_unique_file_path fsys dest)"
proof -
  obtain n where n: "1 \<le> n" "unique_from (map fst fsys) dest 1 = candidate dest n"
    "candidate dest n \<notin> set (map fst fsys)"
    "\<forall>m. 1 \<le> m \<and> m < n \<longrightarrow> candidate dest m \<in> set (map fst fsys)"
    using unique_from_first[of 1 "map fst fsys" dest] by auto
  show ?thesis
  proof (cases "exists fsys dest")
    case False
    then show ?thesis by (simp add: get_unique_file_path_def)
  next
    case True
    then have eq: "get_unique_file_path fsys dest = candidate dest n"
      using n(2) by (simp add: get_unique_file_path_def)
    have "\<exists>n\<ge>1. get_unique_file_path fsys dest
                  = parent dest @ [stem dest @ '' ('' @ str n @ '')'' @ suffix dest]
               \<and> (\<forall>m. 1 \<le> m \<and> m < n \<longrightarrow> exists fsys (candidate dest m))"
      using n(1) n(4) eq by (intro exI[of _ n]) (simp add: exists_def candidate_def)
    moreover have "\<not> exists fsys (get_unique_file_path fsys dest)"
      using n(3) eq by (simp add: exists_def)
    ultimately show ?thesis using True by simp
  qed
qed

text \<open>
  Witness for C5: with \<open>a.png\<close> and \<open>a (1).png\<close> present, the candidate \<open>a.png\<close> exists and
  the allocator answers \<open>a (2).png\<close>, which does not exist.
\<close>

theorem get_unique_file_path_first_free_witness:
  "exists [([''a.png''], File (0::nat)), ([''a (1).png''], File 1)] [''a.png'']
   \<and> get_unique_file_path [([''a.png''], File (0::nat)), ([''a (1).png''], File 1)] [''a.png'']
       = [''a (2).png'']
   \<and> \<not> exists [([''a.png''], File (0::nat)), ([''a (1).png''], File 1)] [''a (2).png'']"
proof -
  have e: "exists [([''a.png''], File (0::nat)), ([''a (1).png''], File 1)] [''a.png'']"
    by (simp add: exists_def)
  have v: "get_unique_file_path [([''a.png''], File (0::nat)), ([''a (1).png''], File 1)] [''a.png'']
             = [''a (2).png'']"
    by code_simp
  from get_unique_file_path_first_free
         [of "[([''a.png''], File (0::nat)), ([''a (1).png''], File 1)]" "[''a.png'']"]
  have "\<not> exists [([''a.png''], File (0::nat)), ([''a (1).png''], File 1)]
           (get_unique_file_path [([''a.png''], File (0::nat)), ([''a (1).png''], File 1)]
              [''a.png''])"
    by blast
  with e v show ?thesis by simp
qed

section \<open>Classifier: totality and partition\<close>

lemma lower_append [simp]: "lower (a @ b) = lower a @ lower b"
  by (simp add: lower_def)

lemma lower_dot_in_set: "CHR ''.'' \<in> set (lower x) \<longleftrightarrow> CHR ''.'' \<in> set x"
  by (induction x) (auto simp: lower_def eq_commute[of "CHR ''.''"])

lemma lower_Nil [simp]: "lower [] = []"
  by (simp add: lower_def)

lemma lower_Nil_iff [simp]: "lower x = [] \<longleftrightarrow> x = []"
  by (simp add: lower_def)

lemma ext_classified:
  assumes s: "s \<noteq> []" and x: "lower x = y" and y: "y \<noteq> []" "CHR ''.'' \<notin> set y"
  shows "lower (suffix (d @ [s @ ''.'' @ x])) = ''.'' @ y"
proof -
  from x y have "x \<noteq> []" "CHR ''.'' \<notin> set x"
    using lower_dot_in_set[of x] by auto
  with s have "suffix (d @ [s @ ''.'' @ x]) = ''.'' @ x" by (rule suffix_ext)
  with x show ?thesis by (simp add: lower_def lower_char_def)
qed

text \<open>
  C6. \<open>detect_type\<close> is a total function of the lower-cased suffix of the file name:
  it answers video exactly on the video set, audio exactly on the audio set, image
  exactly on the image set and \<open>None\<close> (unsupported) on every other suffix, the empty one
  included; the three sets are pairwise disjoint; two names equal up to letter case
  are classified alike; and a name \<open><stem>.<ext>\<close> whose \<open>ext\<close> is, up to case, one of the
  listed extensions gets the kind of that list.
\<close>

theorem detect_type_partition:
  "(detect_type p = Some Video \<longleftrightarrow> lower (suffix p) \<in> VIDEO_EXTS)
   \<and> (detect_type p = Some Audio \<longleftrightarrow> lower (suffix p) \<in> AUDIO_EXTS)
   \<and> (detect_type p = Some Image \<longleftrightarrow> lower (suffix p) \<in> IMAGE_EXTS)
   \<and> (detect_type p = None \<longleftrightarrow> lower (suffix p) \<notin> VIDEO_EXTS \<union> AUDIO_EXTS \<union> IMAGE_EXTS)
   \<and> VIDEO_EXTS \<inter> AUDIO_EXTS = {} \<and> VIDEO_EXTS \<inter> IMAGE_EXTS = {} \<and> AUDIO_EXTS \<inter> IMAGE_EXTS = {}
   \<and> (suffix p = [] \<longrightarrow> detect_type p = None)
   \<and> (lower n = lower m \<longrightarrow> detect_type (d @ [n]) = detect_type (e @ [m]))
   \<and> (s \<noteq> [] \<and> lower x \<in> {''mp4'', ''mov'', ''avi'', ''mkv'', ''webm''}
        \<longrightarrow> detect_type (d @ [s @ ''.'' @ x]) = Some Video)
   \<and> (s \<noteq> [] \<and> lower x \<in> {''mp3'', ''wav'', ''m4a'', ''flac'', ''ogg''}
        \<longrightarrow> detect_type (d @ [s @ ''.'' @ x]) = Some Audio)
   \<and> (s \<noteq> [] \<and> lower x \<in> {''png'', ''jpg'', ''jpeg'', ''webp'', ''bmp'', ''gif'', ''tiff''}
        \<longrightarrow> detect_type (d @ [s @ ''.'' @ x]) = Some Image)"
proof -
  have disj: "VIDEO_EXTS \<inter> AUDIO_EXTS = {}" "VIDEO_EXTS \<inter> IMAGE_EXTS = {}"
    "AUDIO_EXTS \<inter> IMAGE_EXTS = {}"
    by (simp_all add: VIDEO_EXTS_def AUDIO_EXTS_def IMAGE_EXTS_def)
  have kinds: "(detect_type p = Some Video \<longleftrightarrow> lower (suffix p) \<in> VIDEO_EXTS)
   \<and> (detect_type p = Some Audio \<longleftrightarrow> lower (suffix p) \<in> AUDIO_EXTS)
   \<and> (detect_type p = Some Image \<longleftrightarrow> lower (suffix p) \<in> IMAGE_EXTS)
   \<and> (detect_type p = None \<longleftrightarrow> lower (suffix p) \<notin> VIDEO_EXTS \<union> AUDIO_EXTS \<union> IMAGE_EXTS)"
    using disj by (auto simp: detect_type_def Let_def)
  have none: "suffix p = [] \<longrightarrow> detect_type p = None"
    by (simp add: detect_type_def lower_def VIDEO_EXTS_def AUDIO_EXTS_def IMAGE_EXTS_def)
  have ci: "lower n = lower m \<longrightarrow> detect_type (d @ [n]) = detect_type (e @ [m])"
  proof
    assume nm: "lower n = lower m"
    have "lower (suffix (d @ [n])) = suffix ([] @ [lower n])" by (rule suffix_lower[symmetric])
    also have "\<dots> = lower (suffix (e @ [m]))" unfolding nm by (rule suffix_lower)
    finally show "detect_type (d @ [n]) = detect_type (e @ [m])" by (simp add: detect_type_def)
  qed
  have v: "s \<noteq> [] \<and> lower x \<in> {''mp4'', ''mov'', ''avi'', ''mkv'', ''webm''}
        \<longrightarrow> detect_type (d @ [s @ ''.'' @ x]) = Some Video"
  proof
    assume a: "s \<noteq> [] \<and> lower x \<in> {''mp4'', ''mov'', ''avi'', ''mkv'', ''webm''}"
    then have "lower (suffix (d @ [s @ ''.'' @ x])) = ''.'' @ lower x"
      by (intro ext_classified) auto
    with a show "detect_type (d @ [s @ ''.'' @ x]) = Some Video"
      by (auto simp: detect_type_def VIDEO_EXTS_def)
  qed
  have au: "s \<noteq> [] \<and> lower x \<in> {''mp3'', ''wav'', ''m4a'', ''flac'', ''ogg''}
        \<longrightarrow> detect_type (d @ [s @ ''.'' @ x]) = Some Audio"
  proof
    assume a: "s \<noteq> [] \<and> lower x \<in> {''mp3'', ''wav'', ''m4a'', ''flac'', ''ogg''}"
    then have "lower (suffix (d @ [s @ ''.'' @ x])) = ''.'' @ lower x"
      by (intro ext_classified) auto
    with a show "detect_type (d @ [s @ ''.'' @ x]) = Some Audio"
      by (auto simp: detect_type_def VIDEO_EXTS_def AUDIO_EXTS_def)
  qed
  have im: "s \<noteq> [] \<and> lower x \<in> {''png'', ''jpg'', ''jpeg'', ''webp'', ''bmp'', ''gif'', ''tiff''}
        \<longrightarrow> detect_type (d @ [s @ ''.'' @ x]) = Some Image"
  proof
    assume a: "s \<noteq> [] \<and> lower x \<in> {''png'', ''jpg'', ''jpeg'', ''webp'', ''bmp'', ''gif'', ''tiff''}"
    then have "lower (suffix (d @ [s @ ''.'' @ x])) = ''.'' @ lower x"
      by (intro ext_classified) auto
    with a show "detect_type (d @ [s @ ''.'' @ x]) = Some Image"
      by (auto simp: detect_type_def VIDEO_EXTS_def AUDIO_EXTS_def IMAGE_EXTS_def)
  qed
  from disj kinds none ci v au im show ?thesis by blast
qed

text \<open>
  Witness for C6: \<open>Clip.MOV\<close> is a video, like \<open>clip.mov\<close>; \<open>song.OGG\<close> is audio,
  \<open>x.jpeg\<close> an image; \<open>README\<close> and \<open>notes.txt\<close> are unsupported.
\<close>

theorem detect_type_partition_witness:
  "lower (suffix [''in'', ''Clip.MOV'']) \<in> VIDEO_EXTS \<and> detect_type [''in'', ''Clip.MOV''] = Some Video
   \<and> lower ''Clip.MOV'' = lower ''clip.mov'' \<and> detect_type [''in'', ''Clip.MOV''] = detect_type [''clip.mov'']
   \<and> lower ''OGG'' \<in> {''mp3'', ''wav'', ''m4a'', ''flac'', ''ogg''} \<and> detect_type [''song.OGG''] = Some Audio
   \<and> lower ''jpeg'' \<in> {''png'', ''jpg'', ''jpeg'', ''webp'', ''bmp'', ''gif'', ''tiff''} \<and> detect_type [''x.jpeg''] = Some Image
   \<and> lower ''webm'' \<in> {''mp4'', ''mov'', ''avi'', ''mkv'', ''webm''} \<and> detect_type [''x.webm''] = Some Video
   \<and> suffix [''in'', ''README''] = [] \<and> detect_type [''in'', ''README''] = None
   \<and> lower (suffix [''notes.txt'']) \<notin> VIDEO_EXTS \<union> AUDIO_EXTS \<union> IMAGE_EXTS \<and> detect_type [''notes.txt''] = None"
proof -
  have h1: "lower (suffix [''in'', ''Clip.MOV'']) \<in> VIDEO_EXTS" by code_simp
  have h2: "lower ''Clip.MOV'' = lower ''clip.mov''" by code_simp
  have h3: "lower ''OGG'' \<in> {''mp3'', ''wav'', ''m4a'', ''flac'', ''ogg''}" by code_simp
  have h4: "lower ''jpeg'' \<in> {''png'', ''jpg'', ''jpeg'', ''webp'', ''bmp'', ''gif'', ''tiff''}" by code_simp
  have h5: "lower ''webm'' \<in> {''mp4'', ''mov'', ''avi'', ''mkv'', ''webm''}" by code_simp
  have h6: "suffix [''in'', ''README''] = []" by code_simp
  have h7: "lower (suffix [''notes.txt'']) \<notin> VIDEO_EXTS \<union> AUDIO_EXTS \<union> IMAGE_EXTS" by code_simp
  from detect_type_partition[where p = "[''in'', ''Clip.MOV'']"] h1
  have c1: "detect_type [''in'', ''Clip.MOV''] = Some Video" by blast
  from detect_type_partition[where n = "''Clip.MOV''" and m = "''clip.mov''" and d = "[''in'']" and e = "[]"] h2
  have "detect_type ([''in''] @ [''Clip.MOV'']) = detect_type ([] @ [''clip.mov''])" by blast
  then have c2: "detect_type [''in'', ''Clip.MOV''] = detect_type [''clip.mov'']" by simp
  from detect_type_partition[where d = "[]" and s = "''song''" and x = "''OGG''"] h3
  have "detect_type ([] @ [''song'' @ ''.'' @ ''OGG'']) = Some Audio" by blast
  then have c3: "detect_type [''song.OGG''] = Some Audio" by simp
  from detect_type_partition[where d = "[]" and s = "''x''" and x = "''jpeg''"] h4
  have "detect_type ([] @ [''x'' @ ''.'' @ ''jpeg'']) = Some Image" by blast
  then have c4: "detect_type [''x.jpeg''] = Some Image" by simp
  from detect_type_partition[where d = "[]" and s = "''x''" and x = "''webm''"] h5
  have "detect_type ([] @ [''x'' @ ''.'' @ ''webm'']) = Some Video" by blast
  then have c5: "detect_type [''x.webm''] = Some Video" by simp
  from detect_type_partition[where p = "[''in'', ''README'']"] h6
  have c6: "detect_type [''in'', ''README''] = None" by blast
  from detect_type_partition[where p = "[''notes.txt'']"] h7
  have c7: "detect_type [''notes.txt''] = None" by blast
  from h1 h2 h3 h4 h5 h6 h7 c1 c2 c3 c4 c5 c6 c7 show ?thesis by blast
qed

section \<open>An example collaborator and folder\<close>

text \<open>
  A collaborator that cannot decode the file \<open>corrupt\<close>, finds no audio track in \<open>silent\<close>
  and writes every output; and a folder \<open>in\<close> with videos, an image, an audio file,
  an unsupported file and a subfolder.
\<close>

definition example_env :: "string collaborator" where
  "example_env =
     \<lparr>VideoFileClip = (\<lambda>c. if c = ''corrupt'' then Inl ''cannot decode'' else Inr (c \<noteq> ''silent'')),
      AudioFileClip = (\<lambda>c. if c = ''corrupt'' then Inl ''cannot decode'' else Inr ()),
      write_videofile = (\<lambda>c dest codec audio_codec. Inr (''video/'' @ codec)),
      write_audiofile = (\<lambda>c dest codec. Inr (''audio/'' @ codec)),
      Image_open = (\<lambda>c. if c = ''corrupt'' then Inl ''cannot identify image file'' else Inr ''RGBA''),
      Image_save = (\<lambda>c rgb dest. Inr ''image'')\<rparr>"

definition example_fs :: "string filesystem" where
  "example_fs =
     [([''in''], Dir),
      ([''in'', ''a.mp4''], File ''corrupt''),
      ([''in'', ''b.png''], File ''pixels''),
      ([''in'', ''c.MOV''], File ''silent''),
      ([''in'', ''d.wav''], File ''samples''),
      ([''in'', ''e.mkv''], File ''frames''),
      ([''in'', ''notes.txt''], File ''text''),
      ([''in'', ''sub''], Dir)]"

section \<open>Codec policy\<close>

text \<open>
  C8. The audio codec is a fixed table on the target suffix (mp3 to libmp3lame, wav to
  pcm_s16le, m4a to aac, flac to flac, ogg to libvorbis), and both audio writers are
  called with the table's entry for the lower-cased destination suffix. Video to video
  writes with libvpx-vp9 and libopus when the destination suffix is \<open>.webm\<close> and with
  libx264 and aac otherwise; when the source has no audio track the audio codec passed is
  \<open>None\<close>, and the conversion succeeds whenever the writer does.
\<close>

theorem codec_policy:
  "audio_codec_for_ext ''.mp3'' = ''libmp3lame''
   \<and> audio_codec_for_ext ''.wav'' = ''pcm_s16le''
   \<and> audio_codec_for_ext ''.m4a'' = ''aac''
   \<and> audio_codec_for_ext ''.flac'' = ''flac''
   \<and> audio_codec_for_ext ''.ogg'' = ''libvorbis''
   \<and> (read_file (fs st) src = Inr c \<and> AudioFileClip env c = Inr () \<longrightarrow>
        calls (snd (convert_audio_to_audio env src dest st))
          = calls st @ [OpenAudio src, WriteAudio src dest (audio_codec_for_ext (lower (suffix dest)))])
   \<and> (read_file (fs st) src = Inr c \<and> VideoFileClip env c = Inr True \<longrightarrow>
        calls (snd (convert_video_to_audio env src dest st))
          = calls st @ [OpenVideo src, WriteAudio src dest (audio_codec_for_ext (lower (suffix dest)))])
   \<and> (read_file (fs st) src = Inr c \<and> VideoFileClip env c = Inr audio_present \<longrightarrow>
        calls (snd (convert_video_to_video env src dest st))
          = calls st @
            [OpenVideo src,
             WriteVideo src dest
               (if lower (suffix dest) = ''.webm'' then ''libvpx-vp9'' else ''libx264'')
               (if audio_present
                then Some (if lower (suffix dest) = ''.webm'' then ''libopus'' else ''aac'')
                else None)])
   \<and> (read_file (fs st) src = Inr c \<and> VideoFileClip env c = Inr False
        \<and> write_videofile env c dest
             (if lower (suffix dest) = ''.webm'' then ''libvpx-vp9'' else ''libx264'') None = Inr out
        \<longrightarrow> convert_video_to_video env src dest st
              = (Inr (),
                 st\<lparr>converted := converted st + 1,
                    fs := (dest, File out) # fs st,
                    calls := calls st @
                      [OpenVideo src,
                       WriteVideo src dest
                         (if lower (suffix dest) = ''.webm'' then ''libvpx-vp9'' else ''libx264'')
                         None]\<rparr>))"
proof -
  have tab: "audio_codec_for_ext ''.mp3'' = ''libmp3lame''"
    "audio_codec_for_ext ''.wav'' = ''pcm_s16le''"
    "audio_codec_for_ext ''.m4a'' = ''aac''"
    "audio_codec_for_ext ''.flac'' = ''flac''"
    "audio_codec_for_ext ''.ogg'' = ''libvorbis''"
    by (simp_all add: audio_codec_for_ext_def)
  have a2a: "read_file (fs st) src = Inr c \<and> AudioFileClip env c = Inr () \<longrightarrow>
        calls (snd (convert_audio_to_audio env src dest st))
          = calls st @ [OpenAudio src, WriteAudio src dest (audio_codec_for_ext (lower (suffix dest)))]"
    by (simp add: convert_audio_to_audio_def Let_def log_call_def write_file_def split: sum.splits)
  have v2a: "read_file (fs st) src = Inr c \<and> VideoFileClip env c = Inr True \<longrightarrow>
        calls (snd (convert_video_to_audio env src dest st))
          = calls st @ [OpenVideo src, WriteAudio src dest (audio_codec_for_ext (lower (suffix dest)))]"
    by (simp add: convert_video_to_audio_def Let_def log_call_def write_file_def split: sum.splits)
  have v2v: "read_file (fs st) src = Inr c \<and> VideoFileClip env c = Inr audio_present \<longrightarrow>
        calls (snd (convert_video_to_video env src dest st))
          = calls st @
            [OpenVideo src,
             WriteVideo src dest
               (if lower (suffix dest) = ''.webm'' then ''libvpx-vp9'' else ''libx264'')
               (if audio_present
                then Some (if lower (suffix dest) = ''.webm'' then ''libopus'' else ''aac'')
                else None)]"
    by (simp add: convert_video_to_video_def Let_def log_call_def write_file_def split: sum.splits)
  have silent: "read_file (fs st) src = Inr c \<and> VideoFileClip env c = Inr False
        \<and> write_videofile env c dest
             (if lower (suffix dest) = ''.webm'' then ''libvpx-vp9'' else ''libx264'') None = Inr out
        \<longrightarrow> convert_video_to_video env src dest st
              = (Inr (),
                 st\<lparr>converted := converted st + 1,
                    fs := (dest, File out) # fs st,
                    calls := calls st @
                      [OpenVideo src,
                       WriteVideo src dest
                         (if lower (suffix dest) = ''.webm'' then ''libvpx-vp9'' else ''libx264'')
                         None]\<rparr>)"
    by (simp add: convert_video_to_video_def Let_def log_call_def write_file_def)
  show ?thesis using tab a2a v2a v2v silent by (intro conjI) assumption+
qed

text \<open>
  Witness for C8: \<open>d.wav\<close> to flac, \<open>e.mkv\<close> to ogg and to webm, and the silent \<open>c.MOV\<close> to
  mp4, which is converted without an audio codec.
\<close>

theorem codec_policy_witness:
  "read_file (fs (initial example_fs [])) [''in'', ''d.wav''] = Inr ''samples''
   \<and> AudioFileClip example_env ''samples'' = Inr ()
   \<and> calls (snd (convert_audio_to_audio example_env [''in'', ''d.wav''] [''out'', ''d.FLAC'']
                   (initial example_fs [])))
       = [OpenAudio [''in'', ''d.wav''], WriteAudio [''in'', ''d.wav''] [''out'', ''d.FLAC''] ''flac'']
   \<and> read_file (fs (initial example_fs [])) [''in'', ''e.mkv''] = Inr ''frames''
   \<and> VideoFileClip example_env ''frames'' = Inr True
   \<and> calls (snd (convert_video_to_audio example_env [''in'', ''e.mkv''] [''out'', ''e.ogg'']
                   (initial example_fs [])))
       = [OpenVideo [''in'', ''e.mkv''], WriteAudio [''in'', ''e.mkv''] [''out'', ''e.ogg''] ''libvorbis'']
   \<and> calls (snd (convert_video_to_video example_env [''in'', ''e.mkv''] [''out'', ''e.webm'']
                   (initial example_fs [])))
       = [OpenVideo [''in'', ''e.mkv''],
          WriteVideo [''in'', ''e.mkv''] [''out'', ''e.webm''] ''libvpx-vp9'' (Some ''libopus'')]
   \<and> read_file (fs (initial example_fs [])) [''in'', ''c.MOV''] = Inr ''silent''
   \<and> VideoFileClip example_env ''silent'' = Inr False
   \<and> write_videofile example_env ''silent'' [''out'', ''c.mp4''] ''libx264'' None = Inr ''video/libx264''
   \<and> fst (convert_video_to_video example_env [''in'', ''c.MOV''] [''out'', ''c.mp4'']
             (initial example_fs [])) = Inr ()
   \<and> calls (snd (convert_video_to_video example_env [''in'', ''c.MOV''] [''out'', ''c.mp4'']
                   (initial example_fs [])))
       = [OpenVideo [''in'', ''c.MOV''], WriteVideo [''in'', ''c.MOV''] [''out'', ''c.mp4''] ''libx264'' None]"
proof -
  have r1: "read_file (fs (initial example_fs [])) [''in'', ''d.wav''] = Inr ''samples''"
    and r2: "read_file (fs (initial example_fs [])) [''in'', ''e.mkv''] = Inr ''frames''"
    and r3: "read_file (fs (initial example_fs [])) [''in'', ''c.MOV''] = Inr ''silent''"
    by (simp_all add: initial_def example_fs_def read_file_def)
  have o1: "AudioFileClip example_env ''samples'' = Inr ()"
    and o2: "VideoFileClip example_env ''frames'' = Inr True"
    and o3: "VideoFileClip example_env ''silent'' = Inr False"
    by (simp_all add: example_env_def)
  have s1: "lower (suffix [''out'', ''d.FLAC'']) = ''.flac''"
    and s2: "lower (suffix [''out'', ''e.ogg'']) = ''.ogg''"
    and s3: "lower (suffix [''out'', ''e.webm'']) = ''.webm''"
    and s4: "lower (suffix [''out'', ''c.mp4'']) = ''.mp4''"
    by code_simp+
  have w: "write_videofile example_env ''silent'' [''out'', ''c.mp4''] ''libx264'' None
             = Inr ''video/libx264''"
    by (simp add: example_env_def)
  note t1 = codec_policy[where st = "initial example_fs []" and env = example_env
      and src = "[''in'', ''d.wav'']" and dest = "[''out'', ''d.FLAC'']" and c = "''samples''"]
  note t2 = codec_policy[where st = "initial example_fs []" and env = example_env
      and src = "[''in'', ''e.mkv'']" and dest = "[''out'', ''e.ogg'']" and c = "''frames''"
      and audio_present = True]
  note t3 = codec_policy[where st = "initial example_fs []" and env = example_env
      and src = "[''in'', ''e.mkv'']" and dest = "[''out'', ''e.webm'']" and c = "''frames''"
      and audio_present = True]
  note t4 = codec_policy[where st = "initial example_fs []" and env = example_env
      and src = "[''in'', ''c.MOV'']" and dest = "[''out'', ''c.mp4'']" and c = "''silent''"
      and audio_present = False and out = "''video/libx264''"]
  have c1: "calls (snd (convert_audio_to_audio example_env [''in'', ''d.wav''] [''out'', ''d.FLAC'']
                   (initial example_fs [])))
       = [OpenAudio [''in'', ''d.wav''], WriteAudio [''in'', ''d.wav''] [''out'', ''d.FLAC''] ''flac'']"
    using t1 r1 o1 by (simp add: s1 initial_def)
  have c2: "calls (snd (convert_video_to_audio example_env [''in'', ''e.mkv''] [''out'', ''e.ogg'']
                   (initial example_fs [])))
       = [OpenVideo [''in'', ''e.mkv''], WriteAudio [''in'', ''e.mkv''] [''out'', ''e.ogg''] ''libvorbis'']"
    using t2 r2 o2 by (simp add: s2 initial_def)
  have c3: "calls (snd (convert_video_to_video example_env [''in'', ''e.mkv''] [''out'', ''e.webm'']
                   (initial example_fs [])))
       = [OpenVideo [''in'', ''e.mkv''],
          WriteVideo [''in'', ''e.mkv''] [''out'', ''e.webm''] ''libvpx-vp9'' (Some ''libopus'')]"
    using t3 r2 o2 by (simp add: s3 initial_def)
  have c4: "convert_video_to_video example_env [''in'', ''c.MOV''] [''out'', ''c.mp4'']
             (initial example_fs [])
       = (Inr (), (initial example_fs [])
            \<lparr>converted := converted (initial example_fs []) + 1,
             fs := ([''out'', ''c.mp4''], File ''video/libx264'') # fs (initial example_fs []),
             calls := calls (initial example_fs []) @
               [OpenVideo [''in'', ''c.MOV''],
                WriteVideo [''in'', ''c.MOV''] [''out'', ''c.mp4''] ''libx264'' None]\<rparr>)"
    using t4 r3 o3 w by (simp add: s4)
  have c5: "fst (convert_video_to_video example_env [''in'', ''c.MOV''] [''out'', ''c.mp4'']
             (initial example_fs [])) = Inr ()"
    and c6: "calls (snd (convert_video_to_video example_env [''in'', ''c.MOV''] [''out'', ''c.mp4'']
                   (initial example_fs [])))
       = [OpenVideo [''in'', ''c.MOV''], WriteVideo [''in'', ''c.MOV''] [''out'', ''c.mp4''] ''libx264'' None]"
    unfolding c4 by (simp_all add: initial_def)
  show ?thesis using r1 r2 r3 o1 o2 o3 w c1 c2 c3 c5 c6 by (intro conjI) assumption+
qed

section \<open>Report\<close>

lemma print_names_eq:
  "print_names ns st = st\<lparr>stdout := stdout st @ map (\<lambda>f. ''    '' @ bullet @ '' '' @ f) ns\<rparr>"
  by (induction ns arbitrary: st) (simp_all add: print_def)

text \<open>
  The statements of \<open>print_summary\<close> one after the other. None of them changes the summary,
  so each count and each list is the one at entry; this form is the one used to evaluate
  a run.
\<close>

definition print_section :: "nat \<Rightarrow> string \<Rightarrow> string list \<Rightarrow> 'c state \<Rightarrow> 'c state" where
  "print_section n heading names st = (if n > 0 then print_names names (print heading st) else st)"

lemma print_summary_steps [code]:
  "print_summary st =
     foldl (\<lambda>s step. step s) st
       [print (CHR 0x0A # ''==== SUMMARY ====''),
        print (''Converted: '' @ str (converted st)),
        print (''Copied (already correct format): '' @ str (copied st)),
        print_section (copied st) ''  - Files already correct format:'' (correct_format_files st),
        print (''Skipped: '' @ str (skipped st)),
        print_section (skipped st) ''  - Skipped files:'' (skipped_files st),
        print (''Failed: '' @ str (failed st)),
        print_section (failed st) ''  - Failed files:'' (failed_files st),
        print ''================='']"
  by (cases "copied st > 0"; cases "skipped st > 0"; cases "failed st > 0")
    (simp_all add: print_summary_def print_section_def print_names_eq print_def)

text \<open>
  C9. \<open>print_summary\<close> changes nothing but the output, to which it appends: the banner, the
  Converted count, the Copied count and, when that count is positive, a heading and one
  bullet line per name of \<open>correct_format_files\<close> in recording order; likewise the Skipped
  count with \<open>skipped_files\<close> and the Failed count with \<open>failed_files\<close>; and the closing
  rule. No name is ever listed for Converted.
\<close>

theorem print_summary_report:
  "print_summary st =
     st\<lparr>stdout := stdout st
        @ [CHR 0x0A # ''==== SUMMARY ===='',
           ''Converted: '' @ str (converted st),
           ''Copied (already correct format): '' @ str (copied st)]
        @ (if copied st > 0
           then ''  - Files already correct format:''
                  # map (\<lambda>f. ''    '' @ bullet @ '' '' @ f) (correct_format_files st)
           else [])
        @ [''Skipped: '' @ str (skipped st)]
        @ (if skipped st > 0
           then ''  - Skipped files:'' # map (\<lambda>f. ''    '' @ bullet @ '' '' @ f) (skipped_files st)
           else [])
        @ [''Failed: '' @ str (failed st)]
        @ (if failed st > 0
           then ''  - Failed files:'' # map (\<lambda>f. ''    '' @ bullet @ '' '' @ f) (failed_files st)
           else [])
        @ [''================='']\<rparr>"
  by (cases "copied st > 0"; cases "skipped st > 0"; cases "failed st > 0")
    (simp_all add: print_summary_def print_names_eq print_def)

section \<open>Same-format copy short-circuit\<close>

lemma suffix_nonempty_stem: "suffix p \<noteq> [] \<Longrightarrow> stem p \<noteq> []"
  by (auto simp: suffix_def stem_def Let_def split: option.splits if_splits)

lemma detect_type_suffix: "detect_type f = Some t \<Longrightarrow> suffix f \<noteq> []"
  by (auto simp: detect_type_def Let_def VIDEO_EXTS_def AUDIO_EXTS_def IMAGE_EXTS_def
      split: if_splits)

lemma suffix_candidate:
  assumes "s \<noteq> []" "e \<noteq> []" "CHR ''.'' \<notin> set e"
  shows "suffix (candidate (d @ [s @ ''.'' @ e]) i) = ''.'' @ e"
proof -
  have st: "stem (d @ [s @ ''.'' @ e]) = s" by (rule stem_ext[OF assms])
  have su: "suffix (d @ [s @ ''.'' @ e]) = ''.'' @ e" by (rule suffix_ext[OF assms])
  have "candidate (d @ [s @ ''.'' @ e]) i = d @ [(s @ '' ('' @ str i @ '')'') @ ''.'' @ e]"
    unfolding candidate_def st su by simp
  moreover have "suffix (d @ [(s @ '' ('' @ str i @ '')'') @ ''.'' @ e]) = ''.'' @ e"
    using assms by (intro suffix_ext) simp_all
  ultimately show ?thesis by simp
qed


lemma suffix_get_unique:
  assumes "s \<noteq> []" "e \<noteq> []" "CHR ''.'' \<notin> set e"
  shows "suffix (get_unique_file_path fsys (d @ [s @ ''.'' @ e])) = ''.'' @ e"
proof (cases "exists fsys (d @ [s @ ''.'' @ e])")
  case False
  then have "get_unique_file_path fsys (d @ [s @ ''.'' @ e]) = d @ [s @ ''.'' @ e]"
    by (simp add: get_unique_file_path_def)
  then show ?thesis using suffix_ext[OF assms] by simp
next
  case True
  obtain n where "unique_from (map fst fsys) (d @ [s @ ''.'' @ e]) 1
      = candidate (d @ [s @ ''.'' @ e]) n"
    using unique_from_first[of 1 "map fst fsys" "d @ [s @ ''.'' @ e]"] by auto
  with True have "get_unique_file_path fsys (d @ [s @ ''.'' @ e]) = candidate (d @ [s @ ''.'' @ e]) n"
    by (simp add: get_unique_file_path_def)
  then show ?thesis using suffix_candidate[OF assms] by simp
qed

lemma copy_same_format_differs:
  "lower (suffix src) \<noteq> lower (suffix dest) \<Longrightarrow> copy_same_format src dest st = (Inr False, st)"
  by (simp add: copy_same_format_def)

lemma copy_same_format_copies:
  "lower (suffix src) = lower (suffix dest) \<Longrightarrow> read_file (fs st) src = Inr c \<Longrightarrow>
   copy_same_format src dest st
     = (Inr True,
        st\<lparr>copied := copied st + 1,
           correct_format_files := correct_format_files st
             @ [name (if exists (fs st) dest then get_unique_file_path (fs st) dest else dest)],
           fs := ((if exists (fs st) dest then get_unique_file_path (fs st) dest else dest), File c)
                   # fs st,
           stdout := stdout st @ [''Copied (already correct format): '' @ name src],
           calls := calls st
             @ [Copy2 src (if exists (fs st) dest then get_unique_file_path (fs st) dest else dest)]\<rparr>)"
  by (simp add: copy_same_format_def Let_def log_call_def print_def write_file_def)



section \<open>Video without an audio track\<close>

lemma convert_video_to_audio_silent:
  "read_file (fs st) src = Inr c \<Longrightarrow> VideoFileClip env c = Inr False \<Longrightarrow>
   convert_video_to_audio env src dest st
     = (Inr (),
        st\<lparr>skipped := skipped st + 1,
           skipped_files := skipped_files st @ [name src],
           stdout := stdout st @ [''Skipped (no audio): '' @ name src],
           calls := calls st @ [OpenVideo src]\<rparr>)"
  by (simp add: convert_video_to_audio_def Let_def log_call_def print_def)

lemma video_to_audio_differs:
  assumes v: "detect_type f = Some Video"
    and e: "dest_ext \<in> set [''mp3'', ''wav'', ''m4a'', ''flac'', ''ogg'']"
  shows "lower (suffix f)
           \<noteq> lower (suffix (get_unique_file_path fsys (out_dir @ [stem f @ ''.'' @ dest_ext])))"
proof -
  from v have sf: "lower (suffix f) \<in> VIDEO_EXTS"
    by (auto simp: detect_type_def Let_def split: if_splits)
  from v have "stem f \<noteq> []" by (intro suffix_nonempty_stem detect_type_suffix)
  moreover from e have "dest_ext \<noteq> []" "CHR ''.'' \<notin> set dest_ext" by auto
  ultimately have "suffix (get_unique_file_path fsys (out_dir @ [stem f @ ''.'' @ dest_ext]))
      = ''.'' @ dest_ext"
    by (rule suffix_get_unique)
  moreover from e have "lower (''.'' @ dest_ext) \<in> AUDIO_EXTS"
    by (auto simp: AUDIO_EXTS_def lower_def lower_char_def)
  moreover have "VIDEO_EXTS \<inter> AUDIO_EXTS = {}"
    by (simp add: VIDEO_EXTS_def AUDIO_EXTS_def)
  ultimately show ?thesis using sf by auto
qed

text \<open>
  C4. When a video opens and has no audio track, \<open>convert_video_to_audio\<close> returns
  normally having counted one Skipped, appended the source's name to \<open>skipped_files\<close> and
  printed \<open>Skipped (no audio): <name>\<close>; the failed counter, the failed list and the file
  system are unchanged, so no output file exists that did not before, and the only call
  made is the opening of the video. The same holds for the whole per-file step of every
  batch and single-file path (\<open>convert_file\<close>, with and without the \<open>try\<close>) on a file
  classified as video with any of the five audio extensions as target.
\<close>

theorem no_audio_is_skipped:
  "(read_file (fs st) src = Inr c \<and> VideoFileClip env c = Inr False \<longrightarrow>
      convert_video_to_audio env src dest st
        = (Inr (),
           st\<lparr>skipped := skipped st + 1,
              skipped_files := skipped_files st @ [name src],
              stdout := stdout st @ [''Skipped (no audio): '' @ name src],
              calls := calls st @ [OpenVideo src]\<rparr>))
   \<and> (detect_type f = Some Video \<and> dest_ext \<in> set [''mp3'', ''wav'', ''m4a'', ''flac'', ''ogg'']
        \<and> read_file (fs st) f = Inr c \<and> VideoFileClip env c = Inr False \<longrightarrow>
      convert_file guarded (convert_video_to_audio env) out_dir dest_ext f st
        = (Inr (),
           st\<lparr>skipped := skipped st + 1,
              skipped_files := skipped_files st @ [name f],
              stdout := stdout st @ [''Skipped (no audio): '' @ name f],
              calls := calls st @ [OpenVideo f]\<rparr>))"
proof (intro conjI impI)
  assume "read_file (fs st) src = Inr c \<and> VideoFileClip env c = Inr False"
  then show "convert_video_to_audio env src dest st
        = (Inr (),
           st\<lparr>skipped := skipped st + 1,
              skipped_files := skipped_files st @ [name src],
              stdout := stdout st @ [''Skipped (no audio): '' @ name src],
              calls := calls st @ [OpenVideo src]\<rparr>)"
    by (simp add: convert_video_to_audio_silent)
next
  let ?dest = "get_unique_file_path (fs st) (out_dir @ [stem f @ ''.'' @ dest_ext])"
  assume a: "detect_type f = Some Video \<and> dest_ext \<in> set [''mp3'', ''wav'', ''m4a'', ''flac'', ''ogg'']
        \<and> read_file (fs st) f = Inr c \<and> VideoFileClip env c = Inr False"
  then have "lower (suffix f) \<noteq> lower (suffix ?dest)"
    by (intro video_to_audio_differs) simp_all
  then have cp: "copy_same_format f ?dest st = (Inr False, st)"
    by (rule copy_same_format_differs)
  from a have cv: "convert_video_to_audio env f ?dest st
        = (Inr (),
           st\<lparr>skipped := skipped st + 1,
              skipped_files := skipped_files st @ [name f],
              stdout := stdout st @ [''Skipped (no audio): '' @ name f],
              calls := calls st @ [OpenVideo f]\<rparr>)"
    by (simp add: convert_video_to_audio_silent)
  show "convert_file guarded (convert_video_to_audio env) out_dir dest_ext f st
        = (Inr (),
           st\<lparr>skipped := skipped st + 1,
              skipped_files := skipped_files st @ [name f],
              stdout := stdout st @ [''Skipped (no audio): '' @ name f],
              calls := calls st @ [OpenVideo f]\<rparr>)"
    using cp cv by (simp add: convert_file_def Let_def)
qed

text \<open>
  Witness for C4: the silent \<open>c.MOV\<close> asked as \<open>mp3\<close> is skipped, nothing is written.
\<close>

theorem no_audio_is_skipped_witness:
  "detect_type [''in'', ''c.MOV''] = Some Video
   \<and> ''mp3'' \<in> set [''mp3'', ''wav'', ''m4a'', ''flac'', ''ogg'']
   \<and> read_file (fs (initial example_fs [])) [''in'', ''c.MOV''] = Inr ''silent''
   \<and> VideoFileClip example_env ''silent'' = Inr False
   \<and> convert_video_to_audio example_env [''in'', ''c.MOV''] [''out'', ''c.mp3''] (initial example_fs [])
       = (Inr (),
          (initial example_fs [])
            \<lparr>skipped := 1, skipped_files := [''c.MOV''],
             stdout := [''Skipped (no audio): c.MOV''],
             calls := [OpenVideo [''in'', ''c.MOV'']]\<rparr>)
   \<and> convert_file True (convert_video_to_audio example_env) [''out''] ''mp3'' [''in'', ''c.MOV'']
         (initial example_fs [])
       = (Inr (),
          (initial example_fs [])
            \<lparr>skipped := 1, skipped_files := [''c.MOV''],
             stdout := [''Skipped (no audio): c.MOV''],
             calls := [OpenVideo [''in'', ''c.MOV'']]\<rparr>)"
proof -
  have h1: "detect_type [''in'', ''c.MOV''] = Some Video" by code_simp
  have h2: "''mp3'' \<in> set [''mp3'', ''wav'', ''m4a'', ''flac'', ''ogg'']" by simp
  have h3: "read_file (fs (initial example_fs [])) [''in'', ''c.MOV''] = Inr ''silent''"
    by (simp add: initial_def example_fs_def read_file_def)
  have h4: "VideoFileClip example_env ''silent'' = Inr False"
    by (simp add: example_env_def)
  have n: "name [''in'', ''c.MOV''] = ''c.MOV''" by (simp add: name_def)
  note t = no_audio_is_skipped[where st = "initial example_fs []" and c = "''silent''"
      and env = example_env and src = "[''in'', ''c.MOV'']" and dest = "[''out'', ''c.mp3'']"
      and f = "[''in'', ''c.MOV'']" and out_dir = "[''out'']" and dest_ext = "''mp3''"
      and guarded = True]
  have c1: "convert_video_to_audio example_env [''in'', ''c.MOV''] [''out'', ''c.mp3''] (initial example_fs [])
       = (Inr (),
          (initial example_fs [])
            \<lparr>skipped := 1, skipped_files := [''c.MOV''],
             stdout := [''Skipped (no audio): c.MOV''],
             calls := [OpenVideo [''in'', ''c.MOV'']]\<rparr>)"
    using t h3 h4 by (simp add: n) (simp add: initial_def)
  have c2: "convert_file True (convert_video_to_audio example_env) [''out''] ''mp3'' [''in'', ''c.MOV'']
         (initial example_fs [])
       = (Inr (),
          (initial example_fs [])
            \<lparr>skipped := 1, skipped_files := [''c.MOV''],
             stdout := [''Skipped (no audio): c.MOV''],
             calls := [OpenVideo [''in'', ''c.MOV'']]\<rparr>)"
    using t h1 h2 h3 h4 by (simp add: n) (simp add: initial_def)
  show ?thesis using h1 h2 h3 h4 c1 c2 by (intro conjI) assumption+
qed

section \<open>Names recorded with an outcome\<close>

text \<open>
  C10. The name appended to \<open>correct_format_files\<close> by a copy is the name of the
  destination actually written; the name appended to \<open>skipped_files\<close> (video without audio,
  unsupported type in single-file and in folder mode) and to \<open>failed_files\<close> (the handler of
  \<open>convert_single_file\<close> and the handler of \<open>convert_all_same_type\<close>) is the name of the source.
\<close>

theorem recorded_names:
  "(lower (suffix src) = lower (suffix dest) \<and> read_file (fs st) src = Inr c \<longrightarrow>
      correct_format_files (snd (copy_same_format src dest st))
        = correct_format_files st
            @ [name (if exists (fs st) dest then get_unique_file_path (fs st) dest else dest)])
   \<and> (read_file (fs st) src = Inr c \<and> VideoFileClip env c = Inr False \<longrightarrow>
      skipped_files (snd (convert_video_to_audio env src dest st)) = skipped_files st @ [name src])
   \<and> (detect_type src = None \<longrightarrow>
      skipped_files (snd (convert_single_file env src out_dir st)) = skipped_files st @ [name src])
   \<and> (detect_type src = None \<longrightarrow>
      skipped_files (snd (sort_files [src] types st)) = skipped_files st @ [name src])
   \<and> (detect_type src = Some ftype
        \<and> convert_single_try env ftype src out_dir
              (print (''Detected file type: '' @ upper (ftype_str ftype)) st) = (Inl e, st1) \<longrightarrow>
      failed_files (snd (convert_single_file env src out_dir st)) = failed_files st1 @ [name src])
   \<and> (copy_same_format src
           (get_unique_file_path (fs st) (out_dir @ [stem src @ ''.'' @ dest_ext])) st = (Inr False, st1)
        \<and> convert src
              (get_unique_file_path (fs st) (out_dir @ [stem src @ ''.'' @ dest_ext])) st1 = (Inl e, st2) \<longrightarrow>
      failed_files (snd (convert_file True convert out_dir dest_ext src st))
        = failed_files st2 @ [name src])"
proof (intro conjI impI)
  assume "lower (suffix src) = lower (suffix dest) \<and> read_file (fs st) src = Inr c"
  then show "correct_format_files (snd (copy_same_format src dest st))
        = correct_format_files st
            @ [name (if exists (fs st) dest then get_unique_file_path (fs st) dest else dest)]"
    by (simp add: copy_same_format_copies)
next
  assume "read_file (fs st) src = Inr c \<and> VideoFileClip env c = Inr False"
  then show "skipped_files (snd (convert_video_to_audio env src dest st))
      = skipped_files st @ [name src]"
    by (simp add: convert_video_to_audio_silent)
next
  assume "detect_type src = None"
  then show "skipped_files (snd (convert_single_file env src out_dir st))
      = skipped_files st @ [name src]"
    by (simp add: convert_single_file_def print_def)
next
  assume "detect_type src = None"
  then show "skipped_files (snd (sort_files [src] types st)) = skipped_files st @ [name src]"
    by (simp add: print_def)
next
  assume "detect_type src = Some ftype
        \<and> convert_single_try env ftype src out_dir
              (print (''Detected file type: '' @ upper (ftype_str ftype)) st) = (Inl e, st1)"
  then show "failed_files (snd (convert_single_file env src out_dir st))
      = failed_files st1 @ [name src]"
    by (simp add: convert_single_file_def print_def)
next
  assume "copy_same_format src
           (get_unique_file_path (fs st) (out_dir @ [stem src @ ''.'' @ dest_ext])) st = (Inr False, st1)
        \<and> convert src
              (get_unique_file_path (fs st) (out_dir @ [stem src @ ''.'' @ dest_ext])) st1 = (Inl e, st2)"
  then show "failed_files (snd (convert_file True convert out_dir dest_ext src st))
        = failed_files st2 @ [name src]"
    by (simp add: convert_file_def Let_def print_def)
qed

text \<open>
  Witness for C10: \<open>e.mkv\<close> copied within its own folder is recorded as \<open>e (1).mkv\<close>; the
  silent \<open>c.MOV\<close> and the unsupported \<open>notes.txt\<close> are recorded under their own names, and
  so is \<open>a.mp4\<close>, which cannot be decoded, in single-file and in batch mode.
\<close>

theorem recorded_names_witness:
  "lower (suffix [''in'', ''e.mkv'']) = lower (suffix [''in'', ''e (1).mkv''])
   \<and> read_file (fs (initial example_fs [])) [''in'', ''e.mkv''] = Inr ''frames''
   \<and> correct_format_files
         (snd (copy_same_format [''in'', ''e.mkv''] [''in'', ''e (1).mkv''] (initial example_fs [])))
       = [''e (1).mkv'']
   \<and> read_file (fs (initial example_fs [])) [''in'', ''c.MOV''] = Inr ''silent''
   \<and> VideoFileClip example_env ''silent'' = Inr False
   \<and> skipped_files
         (snd (convert_video_to_audio example_env [''in'', ''c.MOV''] [''out'', ''c.mp3'']
                 (initial example_fs [])))
       = [''c.MOV'']
   \<and> detect_type [''in'', ''notes.txt''] = None
   \<and> skipped_files
         (snd (convert_single_file example_env [''in'', ''notes.txt''] [''out'']
                 (initial example_fs [])))
       = [''notes.txt'']
   \<and> skipped_files
         (snd (sort_files [[''in'', ''notes.txt'']] [(Video, []), (Audio, []), (Image, [])]
                 (initial example_fs [])))
       = [''notes.txt'']
   \<and> detect_type [''in'', ''a.mp4''] = Some Video
   \<and> fst (convert_single_try example_env Video [''in'', ''a.mp4''] [''out'']
             (print (''Detected file type: '' @ upper (ftype_str Video))
                (initial example_fs [''1'', ''mkv'']))) = Inl ''cannot decode''
   \<and> failed_files
         (snd (convert_single_file example_env [''in'', ''a.mp4''] [''out'']
                 (initial example_fs [''1'', ''mkv''])))
       = [''a.mp4'']
   \<and> copy_same_format [''in'', ''a.mp4'']
         (get_unique_file_path (fs (initial example_fs []))
            ([''out''] @ [stem [''in'', ''a.mp4''] @ ''.'' @ ''mkv'']))
         (initial example_fs []) = (Inr False, initial example_fs [])
   \<and> fst (convert_video_to_video example_env [''in'', ''a.mp4'']
             (get_unique_file_path (fs (initial example_fs []))
                ([''out''] @ [stem [''in'', ''a.mp4''] @ ''.'' @ ''mkv'']))
             (initial example_fs [])) = Inl ''cannot decode''
   \<and> failed_files
         (snd (convert_file True (convert_video_to_video example_env) [''out''] ''mkv''
                 [''in'', ''a.mp4''] (initial example_fs [])))
       = [''a.mp4'']"
proof -
  let ?S = "initial example_fs [] :: string state"
  let ?T = "print (''Detected file type: '' @ upper (ftype_str Video))
              (initial example_fs [''1'', ''mkv'']) :: string state"
  let ?X = "convert_single_try example_env Video [''in'', ''a.mp4''] [''out''] ?T"
  let ?d = "get_unique_file_path (fs ?S) ([''out''] @ [stem [''in'', ''a.mp4''] @ ''.'' @ ''mkv''])"
  let ?Y = "convert_video_to_video example_env [''in'', ''a.mp4''] ?d ?S"
  have a1: "lower (suffix [''in'', ''e.mkv'']) = lower (suffix [''in'', ''e (1).mkv''])"
    by code_simp
  have a2: "read_file (fs ?S) [''in'', ''e.mkv''] = Inr ''frames''"
    by (simp add: initial_def example_fs_def read_file_def)
  have a3: "\<not> exists (fs ?S) [''in'', ''e (1).mkv'']" by code_simp
  have b1: "read_file (fs ?S) [''in'', ''c.MOV''] = Inr ''silent''"
    by (simp add: initial_def example_fs_def read_file_def)
  have b2: "VideoFileClip example_env ''silent'' = Inr False" by (simp add: example_env_def)
  have c1: "detect_type [''in'', ''notes.txt''] = None" by code_simp
  have d1: "detect_type [''in'', ''a.mp4''] = Some Video" by code_simp
  have d2: "fst ?X = Inl ''cannot decode''" by code_simp
  have d3: "failed_files (snd ?X) = []" by code_simp
  have d4: "?X = (Inl ''cannot decode'', snd ?X)" using d2 by (simp add: prod_eq_iff)
  have e1: "copy_same_format [''in'', ''a.mp4''] ?d ?S = (Inr False, ?S)" by code_simp
  have e2: "fst ?Y = Inl ''cannot decode''" by code_simp
  have e3: "failed_files (snd ?Y) = []" by code_simp
  have e4: "?Y = (Inl ''cannot decode'', snd ?Y)" using e2 by (simp add: prod_eq_iff)
  have n: "name [''in'', ''e (1).mkv''] = ''e (1).mkv''" "name [''in'', ''c.MOV''] = ''c.MOV''"
    "name [''in'', ''notes.txt''] = ''notes.txt''" "name [''in'', ''a.mp4''] = ''a.mp4''"
    by (simp_all add: name_def)
  have z: "correct_format_files ?S = []" "skipped_files ?S = []"
    by (simp_all add: initial_def)
  note t1 = recorded_names[where st = ?S and src = "[''in'', ''e.mkv'']"
      and dest = "[''in'', ''e (1).mkv'']" and c = "''frames''"]
  note t2 = recorded_names[where st = ?S and src = "[''in'', ''c.MOV'']"
      and dest = "[''out'', ''c.mp3'']" and c = "''silent''" and env = example_env]
  note t3 = recorded_names[where st = ?S and src = "[''in'', ''notes.txt'']"
      and env = example_env and out_dir = "[''out'']"
      and types = "[(Video, []), (Audio, []), (Image, [])]"]
  note t4 = recorded_names[where st = "initial example_fs [''1'', ''mkv'']"
      and src = "[''in'', ''a.mp4'']" and env = example_env and out_dir = "[''out'']"
      and ftype = Video and e = "''cannot decode''" and ?st1.0 = "snd ?X"]
  note t5 = recorded_names[where st = ?S and src = "[''in'', ''a.mp4'']" and out_dir = "[''out'']"
      and dest_ext = "''mkv''" and convert = "convert_video_to_video example_env"
      and e = "''cannot decode''" and ?st1.0 = ?S and ?st2.0 = "snd ?Y"]
  have r1: "correct_format_files
         (snd (copy_same_format [''in'', ''e.mkv''] [''in'', ''e (1).mkv''] ?S)) = [''e (1).mkv'']"
    using t1 a1 a2 a3 by (simp add: n z)
  have r2: "skipped_files
         (snd (convert_video_to_audio example_env [''in'', ''c.MOV''] [''out'', ''c.mp3''] ?S))
       = [''c.MOV'']"
    using t2 b1 b2 by (simp add: n z)
  have r3: "skipped_files
         (snd (convert_single_file example_env [''in'', ''notes.txt''] [''out''] ?S))
       = [''notes.txt'']"
    using t3 c1 by (simp add: n z)
  have r4: "skipped_files
         (snd (sort_files [[''in'', ''notes.txt'']] [(Video, []), (Audio, []), (Image, [])] ?S))
       = [''notes.txt'']"
    using t3 c1 by (simp add: n z)
  have r5: "failed_files
         (snd (convert_single_file example_env [''in'', ''a.mp4''] [''out'']
                 (initial example_fs [''1'', ''mkv''])))
       = [''a.mp4'']"
  proof -
    from t4 d1 d4
    have "failed_files
         (snd (convert_single_file example_env [''in'', ''a.mp4''] [''out'']
                 (initial example_fs [''1'', ''mkv''])))
       = failed_files (snd ?X) @ [name [''in'', ''a.mp4'']]"
      by blast
    then show ?thesis unfolding d3 n by simp
  qed
  have r6: "failed_files
         (snd (convert_file True (convert_video_to_video example_env) [''out''] ''mkv''
                 [''in'', ''a.mp4''] ?S))
       = [''a.mp4'']"
  proof -
    from t5 e1 e4
    have "failed_files
         (snd (convert_file True (convert_video_to_video example_env) [''out''] ''mkv''
                 [''in'', ''a.mp4''] ?S))
       = failed_files (snd ?Y) @ [name [''in'', ''a.mp4'']]"
      by blast
    then show ?thesis unfolding e3 n by simp
  qed
  show ?thesis using a1 a2 r1 b1 b2 r2 c1 r3 r4 d1 d2 r5 e1 e2 r6 by (intro conjI) assumption+
qed

section \<open>Batch intent: one resolution per kind group\<close>

text \<open>A prompt changes nothing but the input consumed and the output written.\<close>

definition io_only :: "'c state \<Rightarrow> 'c state \<Rightarrow> bool" where
  "io_only st st' = (st' = st\<lparr>stdin := stdin st', stdout := stdout st'\<rparr>)"

lemma io_only_refl [simp]: "io_only st st"
  by (simp add: io_only_def)

lemma io_only_trans: "io_only a b \<Longrightarrow> io_only b c \<Longrightarrow> io_only a c"
  unfolding io_only_def by (cases a, cases b, cases c) simp

lemma io_only_print [simp]: "io_only st (print s st)"
  by (simp add: io_only_def print_def)

lemma io_only_input: "input p st = (r, st') \<Longrightarrow> io_only st st'"
  by (auto simp: io_only_def input_def print_def split: list.splits)

lemma io_only_fields:
  "io_only st st' \<Longrightarrow>
     converted st' = converted st \<and> copied st' = copied st \<and> skipped st' = skipped st
     \<and> failed st' = failed st \<and> correct_format_files st' = correct_format_files st
     \<and> failed_files st' = failed_files st \<and> skipped_files st' = skipped_files st
     \<and> fs st' = fs st \<and> calls st' = calls st"
  unfolding io_only_def by (cases st, cases st') simp


lemma choose_conversion_loop_io: "choose_conversion_loop st = (r, st') \<Longrightarrow> io_only st st'"
proof (induction st rule: choose_conversion_loop.induct)
  case (1 st)
  let ?st0 = "print (''2) Video '' @ arrow @ '' Audio'')
               (print (''1) Video '' @ arrow @ '' Video'')
                 (print ''Video conversion options:'' st))"
  have p: "io_only st ?st0"
    by (simp add: io_only_def print_def)
  obtain a st1 where i: "input ''Choose (1/2): '' ?st0 = (a, st1)"
    by (cases "input ''Choose (1/2): '' ?st0")
  have q: "io_only st st1" using p io_only_input[OF i] by (rule io_only_trans)
  from "1.prems" have u: "(case a of
        Inl e \<Rightarrow> (Inl e, st1)
      | Inr l \<Rightarrow>
          (let choice = strip l in
           if choice = ''1'' \<or> choice = ''2'' then (Inr choice, st1)
           else choose_conversion_loop (print ''Invalid Selection'' st1))) = (r, st')"
    by (subst (asm) choose_conversion_loop.simps) (simp only: i prod.case)
  show ?case
  proof (cases a)
    case (Inl e)
    with u have "st' = st1" by simp
    with q show ?thesis by simp
  next
    case (Inr l)
    show ?thesis
    proof (cases "strip l = ''1'' \<or> strip l = ''2''")
      case True
      with u Inr have "st' = st1" by (simp add: Let_def del: One_nat_def)
      with q show ?thesis by simp
    next
      case False
      with u Inr
      have r: "choose_conversion_loop (print ''Invalid Selection'' st1) = (r, st')"
        by (simp add: Let_def)
      have "io_only (print ''Invalid Selection'' st1) st'"
        using "1.IH"[OF i[symmetric] Inr refl False r] .
      then have "io_only st1 st'" by (rule io_only_trans[OF io_only_print])
      with q show ?thesis by (rule io_only_trans)
    qed
  qed
qed


lemma choose_extension_loop_io:
  "choose_extension_loop prompt accepted st = (r, st') \<Longrightarrow>
     io_only st st' \<and> (\<forall>e. r = Inr e \<longrightarrow> e \<in> set accepted)"
proof (induction prompt accepted st rule: choose_extension_loop.induct)
  case (1 prompt accepted st)
  obtain a st1 where i: "input prompt st = (a, st1)" by (cases "input prompt st")
  have q: "io_only st st1" using io_only_input[OF i] .
  from "1.prems" have u: "(case a of
        Inl e \<Rightarrow> (Inl e, st1)
      | Inr l \<Rightarrow>
          (let dest_ext = lower (strip l) in
           if dest_ext \<in> set accepted then (Inr dest_ext, st1)
           else choose_extension_loop prompt accepted (print ''Invalid Selection'' st1))) = (r, st')"
    by (subst (asm) choose_extension_loop.simps) (simp only: i prod.case)
  show ?case
  proof (cases a)
    case (Inl e)
    with u have "st' = st1" "r = Inl e" by simp_all
    with q show ?thesis by simp
  next
    case (Inr l)
    show ?thesis
    proof (cases "lower (strip l) \<in> set accepted")
      case True
      with u Inr have "st' = st1" "r = Inr (lower (strip l))" by (simp_all add: Let_def)
      with q True show ?thesis by simp
    next
      case False
      with u Inr
      have r: "choose_extension_loop prompt accepted (print ''Invalid Selection'' st1) = (r, st')"
        by (simp add: Let_def)
      have ih: "io_only (print ''Invalid Selection'' st1) st' \<and> (\<forall>e. r = Inr e \<longrightarrow> e \<in> set accepted)"
        using "1.IH"[OF i[symmetric] Inr refl False r] .
      then have "io_only st1 st'" by (blast intro: io_only_trans[OF io_only_print])
      with q have "io_only st st'" by (rule io_only_trans)
      with ih show ?thesis by simp
    qed
  qed
qed

text \<open>An extension the operator can choose: not empty, without a dot, in lower case.\<close>

definition plain_ext :: "string \<Rightarrow> bool" where
  "plain_ext e = (e \<noteq> [] \<and> CHR ''.'' \<notin> set e)"

lemma choose_conversion_for_video_io:
  "choose_conversion_for_video st = (r, st') \<Longrightarrow> io_only (log_call AskConversion st) st'"
  unfolding choose_conversion_for_video_def by (rule choose_conversion_loop_io)

lemma choose_extension_io:
  assumes "choose_extension ftype st = (r, st')"
  shows "io_only (log_call (AskExtension ftype) st) st'" and "r = Inr e \<Longrightarrow> plain_ext e"
proof -
  from assms have "io_only (log_call (AskExtension ftype) st) st' \<and> (r = Inr e \<longrightarrow> plain_ext e)"
    by (cases ftype)
      (auto simp: choose_extension_def Let_def plain_ext_def dest!: choose_extension_loop_io)
  then show "io_only (log_call (AskExtension ftype) st) st'" and "r = Inr e \<Longrightarrow> plain_ext e"
    by simp_all
qed


text \<open>What a logged call moves: the source and the destination of a copy or a write.\<close>

fun transfer :: "call \<Rightarrow> (path \<times> path) option" where
  "transfer (Copy2 s d) = Some (s, d)"
| "transfer (WriteVideo s d codec audio_codec) = Some (s, d)"
| "transfer (WriteAudio s d codec) = Some (s, d)"
| "transfer (SaveImage s d rgb) = Some (s, d)"
| "transfer c = None"

fun is_ask_ext :: "call \<Rightarrow> bool" where
  "is_ask_ext (AskExtension t) = True"
| "is_ask_ext c = False"


text \<open>From \<open>st\<close> to \<open>st'\<close> the call log only grows, by calls that satisfy \<open>P\<close>.\<close>

definition logs :: "(call \<Rightarrow> bool) \<Rightarrow> 'c state \<Rightarrow> 'c state \<Rightarrow> bool" where
  "logs P st st' = (\<exists>cs. calls st' = calls st @ cs \<and> list_all P cs)"

lemma logs_same: "calls st' = calls st \<Longrightarrow> logs P st st'"
  by (simp add: logs_def)

lemma logs_io: "io_only st st' \<Longrightarrow> logs P st st'"
  by (rule logs_same) (simp add: io_only_fields)



lemma logs_one: "calls st' = calls st @ [c] \<Longrightarrow> P c \<Longrightarrow> logs P st st'"
  by (simp add: logs_def)













text \<open>The number of extension prompts and of conversion prompts in a call log.\<close>

definition n_ext :: "call list \<Rightarrow> nat" where
  "n_ext cs = length (filter is_ask_ext cs)"

definition n_conv :: "call list \<Rightarrow> nat" where
  "n_conv cs = length (filter (\<lambda>c. c = AskConversion) cs)"

text \<open>Everything the calls move is a file of kind \<open>t\<close>, going to a path with extension \<open>ext\<close>.\<close>

definition moves :: "ftype \<Rightarrow> string \<Rightarrow> call list \<Rightarrow> bool" where
  "moves t ext cs =
     list_all (\<lambda>c. case transfer c of
                     None \<Rightarrow> True
                   | Some (s, d) \<Rightarrow> detect_type s = Some t \<and> suffix d = ''.'' @ ext) cs"





lemma n_ext_append [simp]: "n_ext (a @ b) = n_ext a + n_ext b"
  by (simp add: n_ext_def)

lemma n_conv_append [simp]: "n_conv (a @ b) = n_conv a + n_conv b"
  by (simp add: n_conv_def)

lemma moves_append [simp]: "moves t ext (a @ b) \<longleftrightarrow> moves t ext a \<and> moves t ext b"
  by (simp add: moves_def)

lemma counts_prompts [simp]:
  "n_ext [] = 0" "n_conv [] = 0" "moves t ext []"
  "n_ext (AskConversion # cs) = n_ext cs" "n_conv (AskConversion # cs) = Suc (n_conv cs)"
  "moves t ext (AskConversion # cs) = moves t ext cs"
  "n_ext (AskExtension x # cs) = Suc (n_ext cs)" "n_conv (AskExtension x # cs) = n_conv cs"
  "moves t ext (AskExtension x # cs) = moves t ext cs"
  by (simp_all add: n_ext_def n_conv_def moves_def)




lemma sort_files_result:
  "sort_files files types st = (types', st') \<Longrightarrow>
     types' = map (\<lambda>(k, v). (k, v @ [f \<leftarrow> files. detect_type f = Some k])) types
     \<and> calls st' = calls st"
proof (induction files arbitrary: types st)
  case Nil
  then show ?case by (simp add: case_prod_unfold)
next
  case (Cons f files)
  show ?case
  proof (cases "detect_type f")
    case None
    with Cons.prems have "sort_files files types
            ((print (''Skipped (unsupported type): '' @ name f)
                (st\<lparr>skipped_files := skipped_files st @ [name f]\<rparr>))
               \<lparr>skipped := skipped st + 1\<rparr>) = (types', st')"
      by simp
    from Cons.IH[OF this] None show ?thesis by (simp add: print_def)
  next
    case (Some t)
    with Cons.prems have "sort_files files
        (map (\<lambda>(k, v). if k = t then (k, v @ [f]) else (k, v)) types) st = (types', st')"
      by simp
    from Cons.IH[OF this] Some show ?thesis
      by (auto simp: case_prod_unfold)
  qed
qed








text \<open>The kinds that have at least one file among \<open>files\<close>, in the order of the groups.\<close>

definition kinds_present :: "path list \<Rightarrow> ftype list" where
  "kinds_present files = [t \<leftarrow> [Video, Audio, Image]. list_ex (\<lambda>f. detect_type f = Some t) files]"

lemma non_empty_groups:
  "[(k, v) \<leftarrow> map (\<lambda>(k, v). (k, v @ [f \<leftarrow> files. detect_type f = Some k]))
                 [(Video, []), (Audio, []), (Image, [])]. v \<noteq> []]
     = map (\<lambda>t. (t, [f \<leftarrow> files. detect_type f = Some t])) (kinds_present files)"
  by (simp add: kinds_present_def list_ex_iff filter_empty_conv)


section \<open>Accounting and failure isolation where they hold\<close>

text \<open>The number of outcomes recorded so far: the sum of the four counters.\<close>

definition tally :: "'c state \<Rightarrow> nat" where
  "tally st = converted st + copied st + skipped st + failed st"

lemma tally_io: "io_only st st' \<Longrightarrow> tally st' = tally st"
  by (simp add: tally_def io_only_fields)

lemma tally_print [simp]: "tally (print s st) = tally st"
  by (simp add: tally_def print_def)

lemma tally_log_call [simp]: "tally (log_call c st) = tally st"
  by (simp add: tally_def log_call_def)

text \<open>
  A conversion function accounts for its file: it counts one outcome when it returns and
  none when it raises.
\<close>

definition accounts :: "'c convert \<Rightarrow> bool" where
  "accounts convert =
     (\<forall>f d st r st'. convert f d st = (r, st') \<longrightarrow>
        tally st' = tally st + (case r of Inl e \<Rightarrow> 0 | Inr u \<Rightarrow> 1))"

lemma accounts_video_to_video: "accounts (convert_video_to_video env)"
  by (auto simp: accounts_def convert_video_to_video_def Let_def log_call_def write_file_def
      tally_def split: sum.splits)

lemma accounts_video_to_audio: "accounts (convert_video_to_audio env)"
  by (auto simp: accounts_def convert_video_to_audio_def Let_def log_call_def write_file_def
      print_def tally_def split: sum.splits if_splits)

lemma accounts_audio_to_audio: "accounts (convert_audio_to_audio env)"
  by (auto simp: accounts_def convert_audio_to_audio_def Let_def log_call_def write_file_def
      tally_def split: sum.splits)

lemma accounts_image_to_image: "accounts (convert_image_to_image env)"
  by (auto simp: accounts_def convert_image_to_image_def Let_def log_call_def write_file_def
      tally_def split: sum.splits)

lemma copy_same_format_tally:
  "copy_same_format f d st = (r, st') \<Longrightarrow>
     tally st' = tally st + (case r of Inr True \<Rightarrow> 1 | _ \<Rightarrow> 0)"
  by (auto simp: copy_same_format_def Let_def log_call_def write_file_def print_def tally_def
      split: sum.splits if_splits)

lemma convert_file_tally:
  assumes acc: "accounts convert"
    and run: "convert_file guarded convert out_dir ext f st = (r, st')"
  shows "tally st' = tally st + (case r of Inl e \<Rightarrow> 0 | Inr u \<Rightarrow> 1)"
proof -
  let ?dest = "get_unique_file_path (fs st) (out_dir @ [stem f @ ''.'' @ ext])"
  obtain a st1 where c: "copy_same_format f ?dest st = (a, st1)"
    by (cases "copy_same_format f ?dest st")
  note t1 = copy_same_format_tally[OF c]
  show ?thesis
  proof (cases a)
    case (Inl e)
    with run c have "st' = st1" "r = Inl e" by (simp_all add: convert_file_def Let_def)
    with t1 Inl show ?thesis by simp
  next
    case (Inr b)
    show ?thesis
    proof (cases b)
      case True
      with run c Inr have "st' = st1" "r = Inr ()" by (simp_all add: convert_file_def Let_def)
      with t1 Inr True show ?thesis by simp
    next
      case False
      note bF = False
      obtain a2 st2 where v: "convert f ?dest st1 = (a2, st2)" by (cases "convert f ?dest st1")
      from acc v have t2: "tally st2 = tally st1 + (case a2 of Inl e \<Rightarrow> 0 | Inr u \<Rightarrow> 1)"
        by (auto simp: accounts_def)
      from t1 Inr False have t1': "tally st1 = tally st" by simp
      show ?thesis
      proof (cases guarded)
        case True
        with run c Inr bF v show ?thesis using t1' t2
          by (cases a2) (auto simp: convert_file_def Let_def tally_def print_def)
      next
        case g: False
        with run c Inr bF v have "st' = st2" "r = a2"
          by (simp_all add: convert_file_def Let_def)
        with t1' t2 show ?thesis by simp
      qed
    qed
  qed
qed

lemma for_each_tally:
  assumes step: "\<And>x st r st'. x \<in> set xs \<Longrightarrow> body x st = (r, st') \<Longrightarrow>
                   (case r of
                      Inr u \<Rightarrow> tally st' = tally st + w x
                    | Inl e \<Rightarrow> tally st' < tally st + w x)"
    and run: "for_each body xs st = (r, st')"
  shows "(case r of
            Inr u \<Rightarrow> tally st' = tally st + sum_list (map w xs)
          | Inl e \<Rightarrow> tally st' < tally st + sum_list (map w xs))"
  using assms
proof (induction xs arbitrary: st)
  case Nil
  then show ?case by auto
next
  case (Cons x xs)
  obtain a st1 where b: "body x st = (a, st1)" by (cases "body x st")
  have t1: "(case a of
               Inr u \<Rightarrow> tally st1 = tally st + w x
             | Inl e \<Rightarrow> tally st1 < tally st + w x)"
    using Cons.prems(1)[OF _ b] by simp
  show ?case
  proof (cases a)
    case (Inl e)
    with Cons.prems(2) b have "st' = st1" "r = Inl e" by simp_all
    with t1 Inl show ?thesis by simp
  next
    case (Inr u)
    with Cons.prems(2) b have l: "for_each body xs st1 = (r, st')" by simp
    have "(case r of
            Inr u \<Rightarrow> tally st' = tally st1 + sum_list (map w xs)
          | Inl e \<Rightarrow> tally st' < tally st1 + sum_list (map w xs))"
    proof (rule Cons.IH[OF _ l])
      fix y st0 r0 st0'
      assume "y \<in> set xs" and "body y st0 = (r0, st0')"
      then show "(case r0 of
                    Inr u \<Rightarrow> tally st0' = tally st0 + w y
                  | Inl e \<Rightarrow> tally st0' < tally st0 + w y)"
        using Cons.prems(1)[of y st0 r0 st0'] by simp
    qed
    with t1 Inr show ?thesis by (cases r) simp_all
  qed
qed

lemma files_loop_tally:
  assumes acc: "accounts convert"
    and run: "for_each (convert_file guarded convert out_dir ext) files st = (r, st')"
  shows "(case r of
            Inr u \<Rightarrow> tally st' = tally st + length files
          | Inl e \<Rightarrow> tally st' < tally st + length files)"
proof -
  have "(case r of
            Inr u \<Rightarrow> tally st' = tally st + sum_list (map (\<lambda>f. 1) files)
          | Inl e \<Rightarrow> tally st' < tally st + sum_list (map (\<lambda>f. 1) files))"
  proof (rule for_each_tally[OF _ run])
    fix f st0 r0 st0'
    assume "convert_file guarded convert out_dir ext f st0 = (r0, st0')"
    from convert_file_tally[OF acc this]
    show "(case r0 of
             Inr u \<Rightarrow> tally st0' = tally st0 + 1
           | Inl e \<Rightarrow> tally st0' < tally st0 + 1)"
      by (cases r0) simp_all
  qed
  then show ?thesis by (cases r) (simp_all add: sum_list_triv)
qed

lemma tally_after_conversion:
  "choose_conversion_for_video st = (r, st') \<Longrightarrow> tally st' = tally st"
  by (drule choose_conversion_for_video_io) (simp add: tally_io[of "log_call AskConversion st"])

lemma tally_after_extension:
  "choose_extension ftype st = (r, st') \<Longrightarrow> tally st' = tally st"
  by (drule choose_extension_io(1)) (simp add: tally_io[of "log_call (AskExtension ftype) st"])

text \<open>
  What follows an extension prompt: the exception of the prompt, or the loop over the
  files with the extension chosen.
\<close>

lemma asked_then_loop_tally:
  assumes ask: "choose_extension x st1 = (a, st2)"
    and acc: "accounts convert"
    and rest: "(case a of
                  Inl e \<Rightarrow> (Inl e, st2)
                | Inr ext \<Rightarrow> for_each (convert_file guarded convert out_dir ext) files st2) = (r, st')"
    and ne: "files \<noteq> []"
  shows "(case r of
            Inr u \<Rightarrow> tally st' = tally st1 + length files
          | Inl e \<Rightarrow> tally st' < tally st1 + length files)"
proof (cases a)
  case (Inl e)
  with rest have "st' = st2" "r = Inl e" by simp_all
  with tally_after_extension[OF ask] ne show ?thesis by simp
next
  case (Inr ext)
  with rest have "for_each (convert_file guarded convert out_dir ext) files st2 = (r, st')" by simp
  from files_loop_tally[OF acc this] tally_after_extension[OF ask] show ?thesis
    by (cases r) simp_all
qed

lemma convert_group_tally:
  assumes run: "convert_group guarded env t files out_dir st = (r, st')" and ne: "files \<noteq> []"
  shows "(case r of
            Inr u \<Rightarrow> tally st' = tally st + length files
          | Inl e \<Rightarrow> tally st' < tally st + length files)"
proof (cases t)
  case Video
  obtain a st1 where c: "choose_conversion_for_video st = (a, st1)"
    by (cases "choose_conversion_for_video st")
  note t1 = tally_after_conversion[OF c]
  show ?thesis
  proof (cases a)
    case (Inl e)
    with run c Video have "st' = st1" "r = Inl e" by (simp_all add: convert_group_def)
    with t1 ne show ?thesis by simp
  next
    case (Inr choice)
    show ?thesis
    proof (cases "choice = ''1''")
      case True
      obtain a2 st2 where x: "choose_extension Video st1 = (a2, st2)"
        by (cases "choose_extension Video st1")
      have "(case r of
            Inr u \<Rightarrow> tally st' = tally st1 + length files
          | Inl e \<Rightarrow> tally st' < tally st1 + length files)"
      proof (rule asked_then_loop_tally[OF x accounts_video_to_video _ ne])
        from run c Inr True x Video
        show "(case a2 of
                 Inl e \<Rightarrow> (Inl e, st2)
               | Inr ext \<Rightarrow>
                   for_each (convert_file guarded (convert_video_to_video env) out_dir ext)
                     files st2) = (r, st')"
          by (simp add: convert_group_def split: sum.splits)
      qed
      with t1 show ?thesis by (cases r) simp_all
    next
      case False
      obtain a2 st2 where x: "choose_extension Audio st1 = (a2, st2)"
        by (cases "choose_extension Audio st1")
      have "(case r of
            Inr u \<Rightarrow> tally st' = tally st1 + length files
          | Inl e \<Rightarrow> tally st' < tally st1 + length files)"
      proof (rule asked_then_loop_tally[OF x accounts_video_to_audio _ ne])
        from run c Inr False x Video
        show "(case a2 of
                 Inl e \<Rightarrow> (Inl e, st2)
               | Inr ext \<Rightarrow>
                   for_each (convert_file guarded (convert_video_to_audio env) out_dir ext)
                     files st2) = (r, st')"
          by (simp add: convert_group_def split: sum.splits)
      qed
      with t1 show ?thesis by (cases r) simp_all
    qed
  qed
next
  case Audio
  obtain a2 st2 where x: "choose_extension Audio st = (a2, st2)"
    by (cases "choose_extension Audio st")
  show ?thesis
  proof (rule asked_then_loop_tally[OF x accounts_audio_to_audio _ ne])
    from run x Audio
    show "(case a2 of
             Inl e \<Rightarrow> (Inl e, st2)
           | Inr ext \<Rightarrow>
               for_each (convert_file guarded (convert_audio_to_audio env) out_dir ext)
                 files st2) = (r, st')"
      by (simp add: convert_group_def split: sum.splits)
  qed
next
  case Image
  obtain a2 st2 where x: "choose_extension Image st = (a2, st2)"
    by (cases "choose_extension Image st")
  show ?thesis
  proof (rule asked_then_loop_tally[OF x accounts_image_to_image _ ne])
    from run x Image
    show "(case a2 of
             Inl e \<Rightarrow> (Inl e, st2)
           | Inr ext \<Rightarrow>
               for_each (convert_file guarded (convert_image_to_image env) out_dir ext)
                 files st2) = (r, st')"
      by (simp add: convert_group_def split: sum.splits)
  qed
qed

lemma sort_files_tally:
  "sort_files files types st = (types', st') \<Longrightarrow>
     tally st' = tally st + length [f \<leftarrow> files. detect_type f = None]"
proof (induction files arbitrary: types st)
  case Nil
  then show ?case by simp
next
  case (Cons f files)
  show ?case
  proof (cases "detect_type f")
    case None
    with Cons.prems have "sort_files files types
            ((print (''Skipped (unsupported type): '' @ name f)
                (st\<lparr>skipped_files := skipped_files st @ [name f]\<rparr>))
               \<lparr>skipped := skipped st + 1\<rparr>) = (types', st')"
      by simp
    from Cons.IH[OF this] None show ?thesis by (simp add: tally_def print_def)
  next
    case (Some t)
    with Cons.prems have "sort_files files
        (map (\<lambda>(k, v). if k = t then (k, v @ [f]) else (k, v)) types) st = (types', st')"
      by simp
    from Cons.IH[OF this] Some show ?thesis by simp
  qed
qed

lemma kinds_partition:
  "sum_list (map (\<lambda>t. length [f \<leftarrow> files. detect_type f = Some t]) (kinds_present files))
     + length [f \<leftarrow> files. detect_type f = None] = length files"
proof -
  have drop: "sum_list (map (\<lambda>t. length [f \<leftarrow> files. detect_type f = Some t]) (kinds_present files))
      = length [f \<leftarrow> files. detect_type f = Some Video]
        + length [f \<leftarrow> files. detect_type f = Some Audio]
        + length [f \<leftarrow> files. detect_type f = Some Image]"
    by (simp add: kinds_present_def list_ex_iff filter_empty_conv)
  have "length [f \<leftarrow> files. detect_type f = Some Video]
        + length [f \<leftarrow> files. detect_type f = Some Audio]
        + length [f \<leftarrow> files. detect_type f = Some Image]
        + length [f \<leftarrow> files. detect_type f = None] = length files"
  proof (induction files)
    case Nil
    then show ?case by simp
  next
    case (Cons f files)
    then show ?case
    proof (cases "detect_type f")
      case None
      with Cons show ?thesis by simp
    next
      case (Some t)
      with Cons show ?thesis by (cases t) simp_all
    qed
  qed
  with drop show ?thesis by simp
qed

lemma kinds_present_nonempty:
  "t \<in> set (kinds_present files) \<Longrightarrow> [f \<leftarrow> files. detect_type f = Some t] \<noteq> []"
  unfolding kinds_present_def
  by (simp only: set_filter mem_Collect_eq list_ex_iff filter_empty_conv) blast

text \<open>
  The accounting of a folder run: when \<open>convert_folder\<close> returns, the counters have grown by
  exactly the number of files examined; when it raises, by less.
\<close>

theorem folder_accounting:
  assumes run: "convert_folder env folder out_dir st = (r, st')"
  shows "(case r of
            Inr u \<Rightarrow>
              tally st' = tally st + length [f \<leftarrow> iterdir (fs st) folder. is_file (fs st) f]
          | Inl e \<Rightarrow>
              tally st' < tally st + length [f \<leftarrow> iterdir (fs st) folder. is_file (fs st) f])"
proof -
  let ?files = "[f \<leftarrow> iterdir (fs st) folder. is_file (fs st) f]"
  let ?gs = "map (\<lambda>t. (t, [f \<leftarrow> ?files. detect_type f = Some t])) (kinds_present ?files)"
  obtain types st1 where s: "sort_files ?files [(Video, []), (Audio, []), (Image, [])] st = (types, st1)"
    by (cases "sort_files ?files [(Video, []), (Audio, []), (Image, [])] st")
  from sort_files_result[OF s]
  have ty: "types = map (\<lambda>(k, v). (k, v @ [f \<leftarrow> ?files. detect_type f = Some k]))
                       [(Video, []), (Audio, []), (Image, [])]"
    by blast
  note t0 = sort_files_tally[OF s]
  define gs where "gs = [(k, v) \<leftarrow> types. v \<noteq> []]"
  have gs: "gs = ?gs"
    unfolding gs_def ty by (rule non_empty_groups)
  let ?body = "\<lambda>(ftype, flist) st2.
                  convert_group False env ftype flist out_dir
                    (print (CHR 0x0A # upper (ftype_str ftype) @ '' files found: ''
                              @ str (length flist)) st2)"
  let ?multi = "print ''Folder contains multiple file types.'' st1"
  from run have run': "(case gs of
             [(ftype, flist)] \<Rightarrow>
               convert_all_same_type env ftype flist out_dir
                 (print (''Folder contains only '' @ ftype_str ftype @ '' files.'') st1)
           | _ \<Rightarrow> for_each ?body gs ?multi) = (r, st')"
    unfolding convert_folder_def Let_def s prod.case gs_def .
  have ne: "fl \<noteq> []" if "(t, fl) \<in> set gs" for t fl
    using that unfolding gs by (auto dest: kinds_present_nonempty)
  have sum: "sum_list (map (\<lambda>(t, fl). length fl) gs)
      = sum_list (map (\<lambda>t. length [f \<leftarrow> ?files. detect_type f = Some t]) (kinds_present ?files))"
    unfolding gs by (simp add: comp_def)
  have groups: "(case r of
            Inr u \<Rightarrow> tally st' = tally st1 + sum_list (map (\<lambda>(t, fl). length fl) gs)
          | Inl e \<Rightarrow> tally st' < tally st1 + sum_list (map (\<lambda>(t, fl). length fl) gs))"
  proof (cases "\<exists>t fl. gs = [(t, fl)]")
    case True
    then obtain t fl where one: "gs = [(t, fl)]" by (elim exE) (rule that)
    let ?st2 = "print (''Folder contains only '' @ ftype_str t @ '' files.'') st1"
    from run' have g: "convert_group True env t fl out_dir ?st2 = (r, st')"
      unfolding one by (simp add: convert_all_same_type_def)
    have "fl \<noteq> []" by (rule ne[of t]) (simp add: one)
    from convert_group_tally[OF g this] show ?thesis unfolding one by (cases r) simp_all
  next
    case False
    with run' have l: "for_each ?body gs ?multi = (r, st')"
      by (auto split: list.splits)
    have "(case r of
            Inr u \<Rightarrow> tally st' = tally ?multi + sum_list (map (\<lambda>(t, fl). length fl) gs)
          | Inl e \<Rightarrow> tally st' < tally ?multi + sum_list (map (\<lambda>(t, fl). length fl) gs))"
    proof (rule for_each_tally[OF _ l])
      fix g st0 r0 st0'
      assume m: "g \<in> set gs" and b: "?body g st0 = (r0, st0')"
      obtain t fl where g: "g = (t, fl)" by (cases g)
      from b g have "convert_group False env t fl out_dir
                      (print (CHR 0x0A # upper (ftype_str t) @ '' files found: ''
                                @ str (length fl)) st0) = (r0, st0')"
        by simp
      from convert_group_tally[OF this ne] m g
      show "(case r0 of
               Inr u \<Rightarrow> tally st0' = tally st0 + (case g of (t, fl) \<Rightarrow> length fl)
             | Inl e \<Rightarrow> tally st0' < tally st0 + (case g of (t, fl) \<Rightarrow> length fl))"
        by (cases r0) simp_all
    qed
    then show ?thesis by (cases r) simp_all
  qed
  from groups t0 kinds_partition[of ?files] show ?thesis
    unfolding sum by (cases r) simp_all
qed

lemma asked_then_file_tally:
  assumes ask: "choose_extension x st1 = (a, st2)"
    and acc: "accounts convert"
    and rest: "(case a of
                  Inl e \<Rightarrow> (Inl e, st2)
                | Inr ext \<Rightarrow> convert_file False convert out_dir ext src st2) = (r, st')"
  shows "tally st' = tally st1 + (case r of Inl e \<Rightarrow> 0 | Inr u \<Rightarrow> 1)"
proof (cases a)
  case (Inl e)
  with rest have "st' = st2" "r = Inl e" by simp_all
  with tally_after_extension[OF ask] show ?thesis by simp
next
  case (Inr ext)
  with rest have "convert_file False convert out_dir ext src st2 = (r, st')" by simp
  from convert_file_tally[OF acc this] tally_after_extension[OF ask] show ?thesis by simp
qed

lemma convert_single_try_tally:
  assumes run: "convert_single_try env t src out_dir st = (r, st')"
  shows "tally st' = tally st + (case r of Inl e \<Rightarrow> 0 | Inr u \<Rightarrow> 1)"
proof (cases t)
  case Video
  obtain a st1 where c: "choose_conversion_for_video st = (a, st1)"
    by (cases "choose_conversion_for_video st")
  note t1 = tally_after_conversion[OF c]
  show ?thesis
  proof (cases a)
    case (Inl e)
    with run c Video have "st' = st1" "r = Inl e" by (simp_all add: convert_single_try_def)
    with t1 show ?thesis by simp
  next
    case (Inr choice)
    show ?thesis
    proof (cases "choice = ''1''")
      case True
      obtain a2 st2 where x: "choose_extension Video st1 = (a2, st2)"
        by (cases "choose_extension Video st1")
      have "tally st' = tally st1 + (case r of Inl e \<Rightarrow> 0 | Inr u \<Rightarrow> 1)"
      proof (rule asked_then_file_tally[OF x accounts_video_to_video])
        from run c Inr True x Video
        show "(case a2 of
                 Inl e \<Rightarrow> (Inl e, st2)
               | Inr ext \<Rightarrow>
                   convert_file False (convert_video_to_video env) out_dir ext src st2) = (r, st')"
          by (simp add: convert_single_try_def split: sum.splits)
      qed
      with t1 show ?thesis by simp
    next
      case False
      obtain a2 st2 where x: "choose_extension Audio st1 = (a2, st2)"
        by (cases "choose_extension Audio st1")
      have "tally st' = tally st1 + (case r of Inl e \<Rightarrow> 0 | Inr u \<Rightarrow> 1)"
      proof (rule asked_then_file_tally[OF x accounts_video_to_audio])
        from run c Inr False x Video
        show "(case a2 of
                 Inl e \<Rightarrow> (Inl e, st2)
               | Inr ext \<Rightarrow>
                   convert_file False (convert_video_to_audio env) out_dir ext src st2) = (r, st')"
          by (simp add: convert_single_try_def split: sum.splits)
      qed
      with t1 show ?thesis by simp
    qed
  qed
next
  case Audio
  obtain a2 st2 where x: "choose_extension Audio st = (a2, st2)"
    by (cases "choose_extension Audio st")
  show ?thesis
  proof (rule asked_then_file_tally[OF x accounts_audio_to_audio])
    from run x Audio
    show "(case a2 of
             Inl e \<Rightarrow> (Inl e, st2)
           | Inr ext \<Rightarrow>
               convert_file False (convert_audio_to_audio env) out_dir ext src st2) = (r, st')"
      by (simp add: convert_single_try_def split: sum.splits)
  qed
next
  case Image
  obtain a2 st2 where x: "choose_extension Image st = (a2, st2)"
    by (cases "choose_extension Image st")
  show ?thesis
  proof (rule asked_then_file_tally[OF x accounts_image_to_image])
    from run x Image
    show "(case a2 of
             Inl e \<Rightarrow> (Inl e, st2)
           | Inr ext \<Rightarrow>
               convert_file False (convert_image_to_image env) out_dir ext src st2) = (r, st')"
      by (simp add: convert_single_try_def split: sum.splits)
  qed
qed

text \<open>
  The accounting of a single-file run: \<open>convert_single_file\<close> never raises, and it counts
  exactly one outcome, whatever the operator answers and whatever the codec does.
\<close>

theorem single_file_accounting:
  "fst (convert_single_file env src out_dir st) = Inr ()
   \<and> tally (snd (convert_single_file env src out_dir st)) = tally st + 1"
proof (cases "detect_type src")
  case None
  then show ?thesis by (simp add: convert_single_file_def tally_def print_def)
next
  case (Some t)
  let ?st0 = "print (''Detected file type: '' @ upper (ftype_str t)) st"
  obtain a st1 where b: "convert_single_try env t src out_dir ?st0 = (a, st1)"
    by (cases "convert_single_try env t src out_dir ?st0")
  from convert_single_try_tally[OF b]
  have t1: "tally st1 = tally st + (case a of Inl e \<Rightarrow> 0 | Inr u \<Rightarrow> 1)" by simp
  show ?thesis
  proof (cases a)
    case (Inl e)
    with Some b t1 show ?thesis by (simp add: convert_single_file_def tally_def print_def)
  next
    case (Inr u)
    with Some b t1 show ?thesis by (simp add: convert_single_file_def)
  qed
qed

text \<open>A conversion function keeps the files there are: it may add a file, never remove one.\<close>

definition keeps :: "'c convert \<Rightarrow> bool" where
  "keeps convert =
     (\<forall>f d st r st' p. convert f d st = (r, st') \<longrightarrow> is_file (fs st) p \<longrightarrow> is_file (fs st') p)"

lemma keeps_video_to_video: "keeps (convert_video_to_video env)"
  by (auto simp: keeps_def convert_video_to_video_def Let_def log_call_def write_file_def
      is_file_def split: sum.splits)

lemma keeps_video_to_audio: "keeps (convert_video_to_audio env)"
  by (auto simp: keeps_def convert_video_to_audio_def Let_def log_call_def write_file_def
      print_def is_file_def split: sum.splits if_splits)

lemma keeps_audio_to_audio: "keeps (convert_audio_to_audio env)"
  by (auto simp: keeps_def convert_audio_to_audio_def Let_def log_call_def write_file_def
      is_file_def split: sum.splits)

lemma keeps_image_to_image: "keeps (convert_image_to_image env)"
  by (auto simp: keeps_def convert_image_to_image_def Let_def log_call_def write_file_def
      is_file_def split: sum.splits)

lemma copy_same_format_keeps:
  "copy_same_format f d st = (r, st') \<Longrightarrow> is_file (fs st) p \<Longrightarrow> is_file (fs st') p"
  by (auto simp: copy_same_format_def Let_def log_call_def write_file_def print_def is_file_def
      split: sum.splits if_splits)

lemma copy_same_format_returns:
  "is_file (fs st) f \<Longrightarrow> \<exists>b st'. copy_same_format f d st = (Inr b, st')"
  by (auto simp: copy_same_format_def Let_def log_call_def read_file_def is_file_def
      split: option.splits node.splits)

text \<open>
  One file in \<open>convert_all_same_type\<close>: with the source a file, the step returns normally
  whatever the conversion function does, and the files there are stay.
\<close>

lemma guarded_step:
  assumes k: "keeps convert" and f: "is_file (fs st) f"
    and run: "convert_file True convert out_dir ext f st = (r, st')"
  shows "r = Inr ()" and "is_file (fs st) p \<Longrightarrow> is_file (fs st') p"
proof -
  let ?dest = "get_unique_file_path (fs st) (out_dir @ [stem f @ ''.'' @ ext])"
  from copy_same_format_returns[OF f] obtain b st1 where c: "copy_same_format f ?dest st = (Inr b, st1)"
    by blast
  have both: "r = Inr () \<and> (is_file (fs st) p \<longrightarrow> is_file (fs st') p)"
  proof (cases b)
    case True
    with run c have "st' = st1" "r = Inr ()" by (simp_all add: convert_file_def Let_def)
    with copy_same_format_keeps[OF c] show ?thesis by simp
  next
    case False
    obtain a2 st2 where v: "convert f ?dest st1 = (a2, st2)" by (cases "convert f ?dest st1")
    from k v have k2: "is_file (fs st1) p \<Longrightarrow> is_file (fs st2) p"
      by (auto simp: keeps_def)
    from run c False v have "r = Inr () \<and> fs st' = fs st2"
      by (cases a2) (auto simp: convert_file_def Let_def print_def)
    with copy_same_format_keeps[OF c] k2 show ?thesis by auto
  qed
  from both show "r = Inr ()" by simp
  from both show "is_file (fs st) p \<Longrightarrow> is_file (fs st') p" by simp
qed

lemma guarded_loop_returns:
  assumes k: "keeps convert" and fl: "\<forall>f\<in>set files. is_file (fs st) f"
    and run: "for_each (convert_file True convert out_dir ext) files st = (r, st')"
  shows "r = Inr ()"
  using fl run
proof (induction files arbitrary: st)
  case Nil
  then show ?case by simp
next
  case (Cons f files)
  obtain a st1 where b: "convert_file True convert out_dir ext f st = (a, st1)"
    by (cases "convert_file True convert out_dir ext f st")
  from Cons.prems(1) have f: "is_file (fs st) f" by simp
  note g = guarded_step[OF k f b]
  from Cons.prems(2) b g(1)
  have l: "for_each (convert_file True convert out_dir ext) files st1 = (r, st')" by simp
  have "\<forall>f\<in>set files. is_file (fs st1) f" using Cons.prems(1) g(2) by simp
  from Cons.IH[OF this l] show ?case .
qed

lemma input_eof: "input p st = (Inl e, st') \<Longrightarrow> e = ''EOF when reading a line''"
  by (auto simp: input_def split: list.splits)

lemma choose_conversion_loop_eof:
  "choose_conversion_loop st = (Inl e, st') \<Longrightarrow> e = ''EOF when reading a line''"
proof (induction st rule: choose_conversion_loop.induct)
  case (1 st)
  let ?st0 = "print (''2) Video '' @ arrow @ '' Audio'')
               (print (''1) Video '' @ arrow @ '' Video'')
                 (print ''Video conversion options:'' st))"
  obtain a st1 where i: "input ''Choose (1/2): '' ?st0 = (a, st1)"
    by (cases "input ''Choose (1/2): '' ?st0")
  from "1.prems" have u: "(case a of
        Inl e \<Rightarrow> (Inl e, st1)
      | Inr l \<Rightarrow>
          (let choice = strip l in
           if choice = ''1'' \<or> choice = ''2'' then (Inr choice, st1)
           else choose_conversion_loop (print ''Invalid Selection'' st1))) = (Inl e, st')"
    by (subst (asm) choose_conversion_loop.simps) (simp only: i prod.case)
  show ?case
  proof (cases a)
    case (Inl e')
    with u have "e' = e" by simp
    with i Inl show ?thesis by (auto dest: input_eof)
  next
    case (Inr l)
    show ?thesis
    proof (cases "strip l = ''1'' \<or> strip l = ''2''")
      case True
      with u Inr show ?thesis by (simp add: Let_def)
    next
      case False
      with u Inr
      have r: "choose_conversion_loop (print ''Invalid Selection'' st1) = (Inl e, st')"
        by (simp add: Let_def)
      show ?thesis using "1.IH"[OF i[symmetric] Inr refl False r] .
    qed
  qed
qed

lemma choose_extension_loop_eof:
  "choose_extension_loop prompt accepted st = (Inl e, st') \<Longrightarrow> e = ''EOF when reading a line''"
proof (induction prompt accepted st rule: choose_extension_loop.induct)
  case (1 prompt accepted st)
  obtain a st1 where i: "input prompt st = (a, st1)" by (cases "input prompt st")
  from "1.prems" have u: "(case a of
        Inl e \<Rightarrow> (Inl e, st1)
      | Inr l \<Rightarrow>
          (let dest_ext = lower (strip l) in
           if dest_ext \<in> set accepted then (Inr dest_ext, st1)
           else choose_extension_loop prompt accepted (print ''Invalid Selection'' st1))) = (Inl e, st')"
    by (subst (asm) choose_extension_loop.simps) (simp only: i prod.case)
  show ?case
  proof (cases a)
    case (Inl e')
    with u have "e' = e" by simp
    with i Inl show ?thesis by (auto dest: input_eof)
  next
    case (Inr l)
    show ?thesis
    proof (cases "lower (strip l) \<in> set accepted")
      case True
      with u Inr show ?thesis by (simp add: Let_def)
    next
      case False
      with u Inr
      have r: "choose_extension_loop prompt accepted (print ''Invalid Selection'' st1) = (Inl e, st')"
        by (simp add: Let_def)
      show ?thesis using "1.IH"[OF i[symmetric] Inr refl False r] .
    qed
  qed
qed

lemma choose_extension_eof:
  "choose_extension ftype st = (Inl e, st') \<Longrightarrow> e = ''EOF when reading a line''"
  by (cases ftype) (auto simp: choose_extension_def Let_def dest: choose_extension_loop_eof)

lemma choose_conversion_for_video_eof:
  "choose_conversion_for_video st = (Inl e, st') \<Longrightarrow> e = ''EOF when reading a line''"
  unfolding choose_conversion_for_video_def by (rule choose_conversion_loop_eof)

lemma is_file_after_conversion:
  "choose_conversion_for_video st = (r, st') \<Longrightarrow> fs st' = fs st"
  by (drule choose_conversion_for_video_io) (simp add: io_only_fields log_call_def)

lemma is_file_after_extension:
  "choose_extension ftype st = (r, st') \<Longrightarrow> fs st' = fs st"
  by (drule choose_extension_io(1)) (simp add: io_only_fields log_call_def)

lemma asked_then_guarded_loop:
  assumes ask: "choose_extension x st1 = (a, st2)"
    and k: "keeps convert" and fl: "\<forall>f\<in>set files. is_file (fs st1) f"
    and rest: "(case a of
                  Inl e \<Rightarrow> (Inl e, st2)
                | Inr ext \<Rightarrow> for_each (convert_file True convert out_dir ext) files st2) = (r, st')"
  shows "r = Inr () \<or> r = Inl ''EOF when reading a line''"
proof (cases a)
  case (Inl e)
  with rest have "r = Inl e" by simp
  moreover from ask Inl have "e = ''EOF when reading a line''" by (auto dest: choose_extension_eof)
  ultimately show ?thesis by simp
next
  case (Inr ext)
  with rest have l: "for_each (convert_file True convert out_dir ext) files st2 = (r, st')" by simp
  from fl is_file_after_extension[OF ask] have "\<forall>f\<in>set files. is_file (fs st2) f" by simp
  from guarded_loop_returns[OF k this l] show ?thesis by simp
qed

text \<open>
  Failure isolation in a folder of one kind: with every source a file,
  \<open>convert_all_same_type\<close> returns normally unless the operator's input ends at a prompt;
  no error of a conversion leaves it.
\<close>

theorem same_type_isolation:
  assumes fl: "\<forall>f\<in>set files. is_file (fs st) f"
    and run: "convert_all_same_type env t files out_dir st = (r, st')"
  shows "r = Inr () \<or> r = Inl ''EOF when reading a line''"
proof (cases t)
  case Video
  obtain a st1 where c: "choose_conversion_for_video st = (a, st1)"
    by (cases "choose_conversion_for_video st")
  from fl is_file_after_conversion[OF c] have fl1: "\<forall>f\<in>set files. is_file (fs st1) f" by simp
  show ?thesis
  proof (cases a)
    case (Inl e)
    with run c Video have "r = Inl e"
      by (simp add: convert_all_same_type_def convert_group_def)
    moreover from c Inl have "e = ''EOF when reading a line''"
      by (auto dest: choose_conversion_for_video_eof)
    ultimately show ?thesis by simp
  next
    case (Inr choice)
    show ?thesis
    proof (cases "choice = ''1''")
      case True
      obtain a2 st2 where x: "choose_extension Video st1 = (a2, st2)"
        by (cases "choose_extension Video st1")
      show ?thesis
      proof (rule asked_then_guarded_loop[OF x keeps_video_to_video fl1])
        from run c Inr True x Video
        show "(case a2 of
                 Inl e \<Rightarrow> (Inl e, st2)
               | Inr ext \<Rightarrow>
                   for_each (convert_file True (convert_video_to_video env) out_dir ext)
                     files st2) = (r, st')"
          by (simp add: convert_all_same_type_def convert_group_def split: sum.splits)
      qed
    next
      case False
      obtain a2 st2 where x: "choose_extension Audio st1 = (a2, st2)"
        by (cases "choose_extension Audio st1")
      show ?thesis
      proof (rule asked_then_guarded_loop[OF x keeps_video_to_audio fl1])
        from run c Inr False x Video
        show "(case a2 of
                 Inl e \<Rightarrow> (Inl e, st2)
               | Inr ext \<Rightarrow>
                   for_each (convert_file True (convert_video_to_audio env) out_dir ext)
                     files st2) = (r, st')"
          by (simp add: convert_all_same_type_def convert_group_def split: sum.splits)
      qed
    qed
  qed
next
  case Audio
  obtain a2 st2 where x: "choose_extension Audio st = (a2, st2)"
    by (cases "choose_extension Audio st")
  show ?thesis
  proof (rule asked_then_guarded_loop[OF x keeps_audio_to_audio fl])
    from run x Audio
    show "(case a2 of
             Inl e \<Rightarrow> (Inl e, st2)
           | Inr ext \<Rightarrow>
               for_each (convert_file True (convert_audio_to_audio env) out_dir ext)
                 files st2) = (r, st')"
      by (simp add: convert_all_same_type_def convert_group_def split: sum.splits)
  qed
next
  case Image
  obtain a2 st2 where x: "choose_extension Image st = (a2, st2)"
    by (cases "choose_extension Image st")
  show ?thesis
  proof (rule asked_then_guarded_loop[OF x keeps_image_to_image fl])
    from run x Image
    show "(case a2 of
             Inl e \<Rightarrow> (Inl e, st2)
           | Inr ext \<Rightarrow>
               for_each (convert_file True (convert_image_to_image env) out_dir ext)
                 files st2) = (r, st')"
      by (simp add: convert_all_same_type_def convert_group_def split: sum.splits)
  qed
qed

section \<open>Failure isolation and accounting in two whole runs\<close>

text \<open>A folder that holds only videos, the first of which cannot be decoded.\<close>

definition example_videos :: "string filesystem" where
  "example_videos =
     [([''in''], Dir),
      ([''in'', ''a.mp4''], File ''corrupt''),
      ([''in'', ''e.mkv''], File ''frames'')]"

text \<open>
  Two whole runs of \<open>main\<close> on the folder \<open>in\<close>, output folder left at its default, video to
  video: the mixed folder of \<open>example_fs\<close> to \<open>mkv\<close>, and the folder of two videos to \<open>avi\<close>.
  In both the first video, \<open>a.mp4\<close>, cannot be decoded.
\<close>

definition mixed_run :: "(unit, string) result" where
  "mixed_run =
     main example_env (\<lambda>s. [s]) (initial example_fs [''in'', [], ''1'', ''mkv'', ''flac'', ''jpg''])"

definition videos_run :: "(unit, string) result" where
  "videos_run = main example_env (\<lambda>s. [s]) (initial example_videos [''in'', [], ''1'', ''avi''])"

text \<open>
  C1 (fails on the code). In the folder of several kinds the decoding error of \<open>a.mp4\<close>
  leaves \<open>convert_folder\<close> and \<open>main\<close> as an exception: nothing is counted as failed, no
  name is recorded, and no call is made for any of the remaining files, whose prompts are
  never reached. In the folder of one kind the same error is caught by the handler of
  \<open>convert_all_same_type\<close>: \<open>a.mp4\<close> is recorded as failed and \<open>e.mkv\<close> is still converted
  (in general: \<open>same_type_isolation\<close>).
\<close>

theorem mixed_folder_failure_escapes:
  "fst mixed_run = Inl ''cannot decode''
   \<and> failed (snd mixed_run) = 0
   \<and> failed_files (snd mixed_run) = []
   \<and> calls (snd mixed_run) = [AskConversion, AskExtension Video, OpenVideo [''in'', ''a.mp4'']]
   \<and> stdin (snd mixed_run) = [''flac'', ''jpg'']
   \<and> fst videos_run = Inr ()
   \<and> failed (snd videos_run) = 1
   \<and> failed_files (snd videos_run) = [''a.mp4'']
   \<and> converted (snd videos_run) = 1
   \<and> calls (snd videos_run)
       = [AskConversion, AskExtension Video, OpenVideo [''in'', ''a.mp4''],
          OpenVideo [''in'', ''e.mkv''],
          WriteVideo [''in'', ''e.mkv''] [''in'', ''Converted Media'', ''e.avi'']
            ''libx264'' (Some ''aac'')]"
proof -
  have m1: "fst mixed_run = Inl ''cannot decode''" by code_simp
  have m2: "failed (snd mixed_run) = 0" by code_simp
  have m3: "failed_files (snd mixed_run) = []" by code_simp
  have m4: "calls (snd mixed_run)
      = [AskConversion, AskExtension Video, OpenVideo [''in'', ''a.mp4'']]"
    by code_simp
  have m5: "stdin (snd mixed_run) = [''flac'', ''jpg'']" by code_simp
  have v1: "fst videos_run = Inr ()" by code_simp
  have v2: "failed (snd videos_run) = 1" by code_simp
  have v3: "failed_files (snd videos_run) = [''a.mp4'']" by code_simp
  have v4: "converted (snd videos_run) = 1" by code_simp
  have v5: "calls (snd videos_run)
       = [AskConversion, AskExtension Video, OpenVideo [''in'', ''a.mp4''],
          OpenVideo [''in'', ''e.mkv''],
          WriteVideo [''in'', ''e.mkv''] [''in'', ''Converted Media'', ''e.avi'']
            ''libx264'' (Some ''aac'')]"
    by code_simp
  from m1 m2 m3 m4 m5 v1 v2 v3 v4 v5 show ?thesis by (intro conjI) assumption+
qed

text \<open>
  C2 (fails on the code). In the same run of the folder of several kinds six files are
  examined, and when the run ends, by the exception, the four counters add up to one: the
  unsupported \<open>notes.txt\<close>. The file \<open>a.mp4\<close> whose conversion raised has no outcome, the
  four files after it were never processed, and the summary is never printed. The
  counters add up to the files examined exactly in the runs that return normally
  (\<open>folder_accounting\<close>, \<open>single_file_accounting\<close>).
\<close>

theorem mixed_folder_failure_breaks_accounting:
  "[f \<leftarrow> iterdir example_fs [''in'']. is_file example_fs f]
     = [[''in'', ''a.mp4''], [''in'', ''b.png''], [''in'', ''c.MOV''], [''in'', ''d.wav''],
        [''in'', ''e.mkv''], [''in'', ''notes.txt'']]
   \<and> fst mixed_run = Inl ''cannot decode''
   \<and> converted (snd mixed_run) + copied (snd mixed_run) + skipped (snd mixed_run)
         + failed (snd mixed_run) = 1
   \<and> skipped_files (snd mixed_run) = [''notes.txt'']
   \<and> correct_format_files (snd mixed_run) = []
   \<and> last (stdout (snd mixed_run))
       = ''Enter video extension of output (mp4, mov, avi, mkv, webm): ''"
proof -
  have f: "[f \<leftarrow> iterdir example_fs [''in'']. is_file example_fs f]
     = [[''in'', ''a.mp4''], [''in'', ''b.png''], [''in'', ''c.MOV''], [''in'', ''d.wav''],
        [''in'', ''e.mkv''], [''in'', ''notes.txt'']]"
    by code_simp
  have m1: "fst mixed_run = Inl ''cannot decode''" by code_simp
  have m2: "converted (snd mixed_run) + copied (snd mixed_run) + skipped (snd mixed_run)
         + failed (snd mixed_run) = 1"
    by code_simp
  have m3: "skipped_files (snd mixed_run) = [''notes.txt'']" by code_simp
  have m4: "correct_format_files (snd mixed_run) = []" by code_simp
  have m5: "last (stdout (snd mixed_run))
       = ''Enter video extension of output (mp4, mov, avi, mkv, webm): ''"
    by code_simp
  from f m1 m2 m3 m4 m5 show ?thesis by (intro conjI) assumption+
qed

section \<open>Batch intent: resolved once per kind group and applied to its files\<close>












text \<open>
  The conversion function each branch of \<open>convert_group\<close> passes to its loop, by source kind
  and target kind, and the prompts the branch starts with; \<open>convert_group_unfold\<close> shows
  that they describe the branches exactly.
\<close>

definition conversion :: "'c collaborator \<Rightarrow> ftype \<Rightarrow> ftype \<Rightarrow> 'c convert" where
  "conversion env t target =
     (case t of
        Video \<Rightarrow> if target = Video then convert_video_to_video env else convert_video_to_audio env
      | Audio \<Rightarrow> convert_audio_to_audio env
      | Image \<Rightarrow> convert_image_to_image env)"






text \<open>
  The calls one application of an intent to a file \<open>f\<close> of kind \<open>t\<close> makes: \<open>opens\<close> is the
  call that opens \<open>f\<close>, \<open>writer\<close> holds of the write call of the conversion from \<open>t\<close> to
  \<open>target\<close>, and \<open>placed\<close> holds of a copy or a write that takes \<open>f\<close> to a path in the output
  folder with the extension \<open>ext\<close>.
\<close>

fun opens :: "ftype \<Rightarrow> path \<Rightarrow> call" where
  "opens Video f = OpenVideo f"
| "opens Audio f = OpenAudio f"
| "opens Image f = OpenImage f"


fun is_write :: "call \<Rightarrow> bool" where
  "is_write (WriteVideo s d codec audio_codec) = True"
| "is_write (WriteAudio s d codec) = True"
| "is_write (SaveImage s d rgb) = True"
| "is_write c = False"







text \<open>
  A call log that does not start with a write: after the opening of a file, the next call
  belongs to that file only if it is a write.
\<close>

definition fresh :: "call list \<Rightarrow> bool" where
  "fresh cs = (case cs of [] \<Rightarrow> True | c # cs' \<Rightarrow> \<not> is_write c)"

lemma fresh_simps [simp]:
  "fresh []" "fresh (c # cs) = (\<not> is_write c)"
  by (simp_all add: fresh_def)







lemma opens_not_write [simp]: "\<not> is_write (opens t f)"
  by (cases t) simp_all



















end
